theory Spec2Isabelle
  imports Main
begin

section \<open>The cart drawer's promotion engine (popcart.js)\<close>

text \<open>
  A shallow embedding of the reward-tier and Buy-X-Get-Y code of
  \<^verbatim>\<open>extensions/cart-drawer/assets/popcart.js\<close>. JavaScript numbers that count
  units or minor currency units are integers here; objects are records; the
  methods of the \<^verbatim>\<open>PopCart\<close> class take the fields of \<^verbatim>\<open>this\<close> they read as
  arguments and return the fields they write. The reward-tier pass, which comes
  back to itself through \<^verbatim>\<open>refreshCart\<close>, works on a record of those fields and
  on the state of the shop.
\<close>

subsection \<open>Cart lines and offers\<close>

record item =
  key :: string
  product_id :: nat
  variant_id :: nat
  quantity :: int
  price :: int
  properties :: "string \<rightharpoonup> string"

text \<open>
  The cart that \<^verbatim>\<open>/cart.js\<close> returns. \<^verbatim>\<open>renderItems\<close> runs before every function
  modelled here and reads \<^verbatim>\<open>cart.items\<close> without a guard, so the functions below
  only ever see a cart that has its list of lines.
\<close>

record cart =
  items :: "item list"
  total_price :: int

text \<open>\<^verbatim>\<open>item.properties?.[name] === 'true'\<close>\<close>

definition tagged :: "string \<Rightarrow> item \<Rightarrow> bool" where
  "tagged name it = (properties it name = Some ''true'')"

text \<open>
  What \<^verbatim>\<open>JSON.parse(offer.productIds)\<close> makes of the offer's product-id field:
  the field can be absent or empty (falsy), the parse can throw or give a value
  that is no array (then \<^verbatim>\<open>productIds.some\<close> is not a function and the call
  throws), or it gives an array. An entry of the array is a string, or a value
  without an \<^verbatim>\<open>includes\<close> method (number, boolean, null, object), on which
  \<^verbatim>\<open>id.includes('/')\<close> throws. Arrays nested in the array are not modelled.
\<close>

datatype id_entry = IdString string | IdNonString

datatype product_ids = NoProductIds | Malformed | IdList "id_entry list"

record offer =
  title :: string
  buyQuantity :: int
  getQuantity :: int
  rewardMode :: string
  appliesToType :: string
  productIds :: product_ids
  automaticProductHandle :: string

text \<open>\<^verbatim>\<open>x || d\<close> on a number (0, null and undefined are falsy) and on a string.\<close>

definition or_number :: "int \<Rightarrow> int \<Rightarrow> int" where
  "or_number x d = (if x = 0 then d else x)"

definition or_string :: "string \<Rightarrow> string \<Rightarrow> string" where
  "or_string x d = (if x = [] then d else x)"

text \<open>\<^verbatim>\<open>Number.prototype.toString()\<close> on a product id: its decimal digits.\<close>

definition digit_char :: "nat \<Rightarrow> char" where
  "digit_char d = ''0123456789'' ! d"

fun toString :: "nat \<Rightarrow> string" where
  "toString n =
     (if n < 10 then [digit_char n] else toString (n div 10) @ [digit_char (n mod 10)])"

declare toString.simps [simp del]

text \<open>\<^verbatim>\<open>id.split('/').pop()\<close>: what follows the last slash.\<close>

definition split_pop :: "string \<Rightarrow> string" where
  "split_pop s = rev (takeWhile (\<lambda>c. c \<noteq> CHR ''/'') (rev s))"

text \<open>
  The callback of \<^verbatim>\<open>productIds.some\<close> and the walk of \<^verbatim>\<open>some\<close> itself, which
  stops at the first match; \<open>None\<close> is a thrown TypeError.
\<close>

fun id_matches :: "string \<Rightarrow> id_entry \<Rightarrow> bool option" where
  "id_matches itemProductId (IdString s) =
     Some ((if CHR ''/'' \<in> set s then split_pop s else s) = itemProductId)"
| "id_matches itemProductId IdNonString = None"

fun some_id :: "string \<Rightarrow> id_entry list \<Rightarrow> bool option" where
  "some_id itemProductId [] = Some False"
| "some_id itemProductId (e # es) =
     (case id_matches itemProductId e of
        None \<Rightarrow> None
      | Some True \<Rightarrow> Some True
      | Some False \<Rightarrow> some_id itemProductId es)"

definition itemQualifiesForBxgy :: "item \<Rightarrow> offer \<Rightarrow> bool" where
  "itemQualifiesForBxgy it off =
     (if appliesToType off = ''all'' then True
      else if appliesToType off = ''collection'' then True
      else if appliesToType off = ''products'' \<and> productIds off \<noteq> NoProductIds then
        (case productIds off of
           IdList ids \<Rightarrow>
             (case some_id (toString (product_id it)) ids of
                Some b \<Rightarrow> b
              | None \<Rightarrow> False)
         | _ \<Rightarrow> False)
      else False)"

text \<open>The loop of \<^verbatim>\<open>calculateBxgyQualifyingQuantity\<close>, one step per cart line.\<close>

definition qualifying_step :: "offer \<Rightarrow> int \<Rightarrow> item \<Rightarrow> int" where
  "qualifying_step off totalQty it =
     (if tagged ''_popcart_free_gift'' it then totalQty
      else if tagged ''_popcart_bxgy_free'' it then totalQty
      else if itemQualifiesForBxgy it off then totalQty + quantity it
      else totalQty)"

definition calculateBxgyQualifyingQuantity :: "cart \<Rightarrow> offer \<Rightarrow> int" where
  "calculateBxgyQualifyingQuantity c off = foldl (qualifying_step off) 0 (items c)"

definition countBxgyFreeItemsInCart :: "cart \<Rightarrow> int" where
  "countBxgyFreeItemsInCart c =
     foldl (\<lambda>count it. if tagged ''_popcart_bxgy_free'' it then count + quantity it else count)
       0 (items c)"


subsection \<open>The cheapest-item allocator\<close>

text \<open>
  The test of the \<^verbatim>\<open>filter\<close> in \<^verbatim>\<open>calculateCheapestFreeItems\<close>: a line that is
  neither a spend-threshold gift nor a BXGY free line and that the offer applies to.
\<close>

definition countsTowardsOffer :: "offer \<Rightarrow> item \<Rightarrow> bool" where
  "countsTowardsOffer off it =
     (if tagged ''_popcart_free_gift'' it then False
      else if tagged ''_popcart_bxgy_free'' it then False
      else itemQualifiesForBxgy it off)"

record free_candidate =
  cand_key :: string
  unitPrice :: int
  cand_quantity :: int

definition candidate :: "item \<Rightarrow> free_candidate" where
  "candidate it = \<lparr>cand_key = key it, unitPrice = price it, cand_quantity = quantity it\<rparr>"

text \<open>
  \<^verbatim>\<open>.filter(...).map(...).sort((a, b) => a.unitPrice - b.unitPrice)\<close>. The sort of
  a JavaScript array is stable, and so is \<^const>\<open>sort_key\<close>.
\<close>

definition qualifyingItems :: "cart \<Rightarrow> offer \<Rightarrow> free_candidate list" where
  "qualifyingItems c off =
     sort_key unitPrice (map candidate (filter (countsTowardsOffer off) (items c)))"

text \<open>The \<^verbatim>\<open>for\<close> loop over the sorted lines, with its \<^verbatim>\<open>break\<close>.\<close>

fun allocate :: "free_candidate list \<Rightarrow> int \<Rightarrow> (string \<rightharpoonup> int) \<Rightarrow> (string \<rightharpoonup> int)" where
  "allocate [] remaining freeItemsMap = freeItemsMap"
| "allocate (c # cs) remaining freeItemsMap =
     (if remaining \<le> 0 then freeItemsMap
      else let freeFromThisItem = min (cand_quantity c) remaining
           in allocate cs (remaining - freeFromThisItem)
                (freeItemsMap(cand_key c \<mapsto> freeFromThisItem)))"

definition calculateCheapestFreeItems :: "cart \<Rightarrow> offer \<Rightarrow> int \<Rightarrow> (string \<rightharpoonup> int)" where
  "calculateCheapestFreeItems c off numFreeItems =
     (if numFreeItems \<le> 0 then Map.empty
      else allocate (qualifyingItems c off) numFreeItems Map.empty)"

subsection \<open>The progress bar's entitlement\<close>

text \<open>
  \<^verbatim>\<open>updateBxgyProgress\<close> returns the new \<^verbatim>\<open>this.bxgyFreeItemKeys\<close> and the
  arguments it hands to \<^verbatim>\<open>renderBxgyProgress\<close> (offer, qualifying quantity,
  earned free items, free items in the cart), or \<open>None\<close> when it hides the
  section instead. Only \<^verbatim>\<open>this.bxgyOffers[0]\<close> is read.
\<close>

definition updateBxgyProgress ::
  "bool \<Rightarrow> offer list \<Rightarrow> cart \<Rightarrow> (string \<rightharpoonup> int) \<times> (offer \<times> int \<times> int \<times> int) option" where
  "updateBxgyProgress bxgyEnabled bxgyOffers c =
     (if \<not> bxgyEnabled then (Map.empty, None)
      else case bxgyOffers of
        [] \<Rightarrow> (Map.empty, None)
      | off # _ \<Rightarrow>
          let qualifyingQty = calculateBxgyQualifyingQuantity c off;
              buyQty = or_number (buyQuantity off) 3;
              getQty = or_number (getQuantity off) 1;
              mode = or_string (rewardMode off) ''cheapest_in_cart'';
              earnedFreeItems =
                (if mode = ''cheapest_in_cart''
                 then max 0 (min getQty (qualifyingQty - buyQty))
                 else (qualifyingQty div buyQty) * getQty);
              freeKeys =
                (if mode = ''cheapest_in_cart''
                 then calculateCheapestFreeItems c off earnedFreeItems
                 else Map.empty)
          in (freeKeys, Some (off, qualifyingQty, earnedFreeItems, countBxgyFreeItemsInCart c)))"

subsection \<open>Requests, responses and what a pass does\<close>

text \<open>
  The engine talks to the shop through \<^verbatim>\<open>fetch\<close>. A request is one of the four
  calls the code makes; the network answers each request by rejecting the promise
  (a transport failure, which \<^verbatim>\<open>await\<close> turns into an exception) or by resolving
  it with \<^verbatim>\<open>response.ok\<close> and, for a product lookup, the variant ids of the
  product in the body. What a function does is the list of its requests, of its
  \<^verbatim>\<open>console.error\<close> and \<^verbatim>\<open>console.warn\<close> calls and of its calls to
  \<^verbatim>\<open>refreshCart\<close> and the selection picker, in order. \<^verbatim>\<open>console.log\<close> tracing and
  the \<^verbatim>\<open>isInternalCartUpdate\<close> flag, which every function resets before it
  returns, are left out: every request of the engine that changes the cart is
  made right after the flag is set, so the wrapper around \<^verbatim>\<open>fetch\<close> schedules no
  refresh for it.

  A refresh scheduled with \<^verbatim>\<open>setTimeout\<close> is the event \<open>RefreshLater\<close>; what
  that refresh does when its timer fires is not followed. An awaited call of
  \<^verbatim>\<open>refreshCart\<close> starts with the event \<open>Refresh\<close>, its request for
  \<^verbatim>\<open>/cart.js\<close>, and is followed by everything the refresh does before it
  returns. \<open>ReloadSection\<close> is the request of \<^verbatim>\<open>reloadDrawerSection\<close> for the
  drawer's section of the page.
\<close>

datatype request =
    GetProduct string
  | CartAdd nat int "(string \<times> string) list"
  | CartChange string int
  | CartUpdate "(string \<times> string option) list"

datatype response = Rejected | Resolved bool "nat list"

type_synonym network = "request \<Rightarrow> response"

datatype event =
    Fetch request
  | ConsoleError string
  | ConsoleWarn string
  | Refresh
  | RefreshLater
  | ReloadSection
  | HidePicker
  | ShowPicker int

subsection \<open>Reward tiers\<close>

datatype reward_type = free_shipping | discount_percent | discount_fixed | free_gift

fun reward_type_name :: "reward_type \<Rightarrow> string" where
  "reward_type_name free_shipping = ''free_shipping''"
| "reward_type_name discount_percent = ''discount_percent''"
| "reward_type_name discount_fixed = ''discount_fixed''"
| "reward_type_name free_gift = ''free_gift''"

record tier =
  threshold :: int
  rewardType :: reward_type
  rewardValue :: "string option"
  tier_title :: string

text \<open>
  The key \<^verbatim>\<open>`${tier.rewardType}-${tier.threshold}`\<close>, kept as the pair it is made
  of. None of the four reward types contains a hyphen, so two tiers have the same
  key string exactly when they have the same pair.
\<close>

type_synonym reward_key = "reward_type \<times> int"

definition rewardKey :: "tier \<Rightarrow> reward_key" where
  "rewardKey t = (rewardType t, threshold t)"

definition toString_int :: "int \<Rightarrow> string" where
  "toString_int i = (if i < 0 then CHR ''-'' # toString (nat (- i)) else toString (nat i))"

text \<open>\<^verbatim>\<open>!tier.rewardValue\<close>: null and the empty string are falsy.\<close>

definition falsy :: "string option \<Rightarrow> bool" where
  "falsy v = (v = None \<or> v = Some [])"

text \<open>
  \<^verbatim>\<open>updateCartAttributes\<close>. \<^verbatim>\<open>parseFloat\<close> is a parameter: it maps the reward value
  to a number of some linearly ordered type, or to \<open>None\<close> for NaN, with which
  every comparison is false. \<open>better\<close> is the callback of \<^verbatim>\<open>reduce\<close>, started
  with \<^verbatim>\<open>null\<close>.
\<close>

definition greater :: "'n::linorder option \<Rightarrow> 'n option \<Rightarrow> bool" where
  "greater a b = (case (a, b) of (Some x, Some y) \<Rightarrow> y < x | _ \<Rightarrow> False)"

definition better ::
  "(string option \<Rightarrow> 'n::linorder option) \<Rightarrow> tier option \<Rightarrow> tier \<Rightarrow> tier option" where
  "better parseFloat best t =
     (case best of
        None \<Rightarrow> Some t
      | Some b \<Rightarrow>
          if rewardType t = discount_percent \<and> rewardType b = discount_percent then
            (if greater (parseFloat (rewardValue t)) (parseFloat (rewardValue b))
             then Some t else Some b)
          else if rewardType t = discount_fixed \<and> rewardType b = discount_fixed then
            (if greater (parseFloat (rewardValue t)) (parseFloat (rewardValue b))
             then Some t else Some b)
          else if rewardType t = discount_percent then Some t else Some b)"

definition discountTiers :: "tier list \<Rightarrow> tier list" where
  "discountTiers unlockedTiers =
     filter (\<lambda>t. rewardType t = discount_percent \<or> rewardType t = discount_fixed) unlockedTiers"

definition bestDiscount ::
  "(string option \<Rightarrow> 'n::linorder option) \<Rightarrow> tier list \<Rightarrow> tier option" where
  "bestDiscount parseFloat unlockedTiers =
     foldl (better parseFloat) None (discountTiers unlockedTiers)"

definition attributes ::
  "(string option \<Rightarrow> 'n::linorder option) \<Rightarrow> tier list \<Rightarrow> (string \<times> string option) list" where
  "attributes parseFloat unlockedTiers =
     [(''_popcart_rewards_count'', Some (toString (length unlockedTiers))),
      (''_popcart_free_shipping'',
         Some (if \<exists>t \<in> set unlockedTiers. rewardType t = free_shipping
               then ''true'' else ''false''))]
     @ (case bestDiscount parseFloat unlockedTiers of
          None \<Rightarrow> []
        | Some b \<Rightarrow>
            [(''_popcart_discount_type'', Some (reward_type_name (rewardType b))),
             (''_popcart_discount_value'', rewardValue b)])"

definition updateCartAttributes ::
  "(string option \<Rightarrow> 'n::linorder option) \<Rightarrow> network \<Rightarrow> tier list \<Rightarrow> event list" where
  "updateCartAttributes parseFloat net unlockedTiers =
     (let update = CartUpdate (attributes parseFloat unlockedTiers) in
      case net update of
        Rejected \<Rightarrow> [Fetch update, ConsoleError ''PopCart: Error updating cart attributes:'']
      | Resolved _ _ \<Rightarrow> [Fetch update])"

text \<open>
  \<^verbatim>\<open>appliedKey.split('-')\<close> and \<^verbatim>\<open>parseInt(threshold)\<close> give back the reward type
  and the threshold of a key, unless the threshold is negative: then the second
  piece of the split is empty, \<^verbatim>\<open>parseInt\<close> gives NaN and no tier is found.
\<close>

definition find_tier :: "tier list \<Rightarrow> reward_key \<Rightarrow> tier option" where
  "find_tier tiers k =
     (if snd k < 0 then None
      else find (\<lambda>t. rewardType t = fst k \<and> threshold t = snd k) tiers)"

subsection \<open>Applying Buy-X-Get-Y rewards\<close>

record bxgy_state =
  isApplyingBxgy :: bool
  lastBxgyActionTime :: int
  lastBxgyState :: "int \<times> int"
  remainingFreeSlots :: int

text \<open>
  \<^verbatim>\<open>(cart?.items || []).filter(tagged).reduce((sum, item) => sum + item.quantity, 0)\<close>
\<close>

definition currentFreeItems :: "cart \<Rightarrow> int" where
  "currentFreeItems c =
     foldl (\<lambda>sum it. sum + quantity it) 0 (filter (tagged ''_popcart_bxgy_free'') (items c))"

text \<open>
  The loop of \<^verbatim>\<open>removeBxgyFreeItems\<close>. The \<^verbatim>\<open>try\<close> encloses the whole loop: a
  rejected request leaves the loop for the \<^verbatim>\<open>catch\<close>. The response of a
  resolved request is not looked at.
\<close>

fun remove_free_units :: "network \<Rightarrow> item list \<Rightarrow> int \<Rightarrow> event list" where
  "remove_free_units net [] remaining = []"
| "remove_free_units net (it # its) remaining =
     (if remaining \<le> 0 then []
      else
        let removeQty = min (quantity it) remaining;
            newQty = quantity it - removeQty;
            change = CartChange (key it) newQty
        in case net change of
             Rejected \<Rightarrow> [Fetch change, ConsoleError ''PopCart: Error removing BXGY free items:'']
           | Resolved _ _ \<Rightarrow> Fetch change # remove_free_units net its (remaining - removeQty))"

definition removeBxgyFreeItems :: "network \<Rightarrow> cart \<Rightarrow> int \<Rightarrow> event list" where
  "removeBxgyFreeItems net c n =
     (if n \<le> 0 then []
      else remove_free_units net (filter (tagged ''_popcart_bxgy_free'') (items c)) n)"

text \<open>
  \<^verbatim>\<open>showSelectionPicker\<close> stores the number of free slots left and hides the
  picker when there is none; otherwise it renders the picker or starts loading
  its products, which is the event \<open>ShowPicker\<close>. It returns the new
  \<^verbatim>\<open>this.remainingFreeSlots\<close>.
\<close>

definition showSelectionPicker :: "int \<Rightarrow> cart \<Rightarrow> int \<times> event list" where
  "showSelectionPicker earnedFreeItems c =
     (let slots = max 0 (earnedFreeItems - currentFreeItems c) in
      if slots = 0 then (slots, [HidePicker]) else (slots, [ShowPicker slots]))"

text \<open>
  \<^verbatim>\<open>addAutomaticBxgyItem\<close> sets \<^verbatim>\<open>isApplyingBxgy\<close> while it runs and clears it in
  its \<^verbatim>\<open>finally\<close>, where it also schedules a refresh.
\<close>

definition addAutomaticBxgyItem :: "network \<Rightarrow> offer \<Rightarrow> string \<Rightarrow> int \<Rightarrow> event list" where
  "addAutomaticBxgyItem net off productHandle n =
     (case net (GetProduct productHandle) of
        Rejected \<Rightarrow>
          [Fetch (GetProduct productHandle),
           ConsoleError ''PopCart: Error adding automatic BXGY item:'', RefreshLater]
      | Resolved ok variants \<Rightarrow>
          if \<not> ok then
            [Fetch (GetProduct productHandle),
             ConsoleWarn ''PopCart: Could not find automatic BXGY product:'', RefreshLater]
          else
            (case variants of
               [] \<Rightarrow>
                 [Fetch (GetProduct productHandle),
                  ConsoleError ''PopCart: Error adding automatic BXGY item:'', RefreshLater]
             | variant # _ \<Rightarrow>
                 let add = CartAdd variant n
                       [(''_popcart_bxgy_free'', ''true''),
                        (''_popcart_bxgy_offer'', title off),
                        (''_popcart_gift_name'', title off @ '' - Free Item'')]
                 in (case net add of
                       Rejected \<Rightarrow>
                         [Fetch (GetProduct productHandle), Fetch add,
                          ConsoleError ''PopCart: Error adding automatic BXGY item:'', RefreshLater]
                     | Resolved _ _ \<Rightarrow>
                         [Fetch (GetProduct productHandle), Fetch add, RefreshLater])))"

text \<open>
  \<^verbatim>\<open>applyAutomaticBxgyReward\<close> returns the new \<^verbatim>\<open>lastBxgyActionTime\<close>; \<open>later\<close>
  is what \<^verbatim>\<open>Date.now()\<close> gives when it is called here.
\<close>

definition applyAutomaticBxgyReward ::
  "network \<Rightarrow> offer \<Rightarrow> cart \<Rightarrow> int \<Rightarrow> int \<Rightarrow> int \<Rightarrow> int \<times> event list" where
  "applyAutomaticBxgyReward net off c earnedFreeItems later lastAction =
     (if automaticProductHandle off = [] then
        (lastAction, [ConsoleWarn ''PopCart: No automatic product handle configured for BXGY offer''])
      else if earnedFreeItems = currentFreeItems c then (lastAction, [])
      else if currentFreeItems c < earnedFreeItems then
        (later, addAutomaticBxgyItem net off (automaticProductHandle off)
                  (earnedFreeItems - currentFreeItems c))
      else
        (later, removeBxgyFreeItems net c (currentFreeItems c - earnedFreeItems)))"

text \<open>
  \<^verbatim>\<open>applyBxgyRewards\<close>. \<open>now\<close> is the \<^verbatim>\<open>Date.now()\<close> read at entry. Only
  \<^verbatim>\<open>this.bxgyOffers[0]\<close> is read. A reward mode that is none of the three
  matches no \<^verbatim>\<open>case\<close> of the \<^verbatim>\<open>switch\<close>.
\<close>

definition applyBxgyRewards ::
  "network \<Rightarrow> bool \<Rightarrow> offer list \<Rightarrow> cart \<Rightarrow> int \<Rightarrow> int \<Rightarrow> bxgy_state
     \<Rightarrow> bxgy_state \<times> event list" where
  "applyBxgyRewards net bxgyEnabled bxgyOffers c now later st =
     (if isApplyingBxgy st then (st, [])
      else if \<not> bxgyEnabled then (st, [HidePicker])
      else case bxgyOffers of
        [] \<Rightarrow> (st, [HidePicker])
      | off # _ \<Rightarrow>
          let timeSinceLastAction = now - lastBxgyActionTime st;
              mode = or_string (rewardMode off) ''cheapest_in_cart'';
              qualifyingQty = calculateBxgyQualifyingQuantity c off;
              buyQty = or_number (buyQuantity off) 3;
              getQty = or_number (getQuantity off) 1;
              earnedCycles = qualifyingQty div buyQty;
              earnedFreeItems = earnedCycles * getQty;
              (st', evs) =
                (if mode = ''cheapest_in_cart'' then (st, [HidePicker])
                 else if mode = ''selection'' then
                   (if earnedFreeItems = 0 \<and> 0 < currentFreeItems c then
                      (st\<lparr>lastBxgyActionTime := now\<rparr>,
                       removeBxgyFreeItems net c (currentFreeItems c) @ [HidePicker])
                    else if earnedFreeItems < currentFreeItems c then
                      (if timeSinceLastAction < 2000 then (st, [])
                       else
                         (st\<lparr>lastBxgyActionTime := now\<rparr>,
                          removeBxgyFreeItems net c (currentFreeItems c - earnedFreeItems)))
                    else if 0 < earnedFreeItems then
                      (let (slots, shown) = showSelectionPicker earnedFreeItems c
                       in (st\<lparr>remainingFreeSlots := slots\<rparr>, shown))
                    else (st, [HidePicker]))
                 else if mode = ''automatic'' then
                   (if earnedFreeItems = 0 \<and> 0 < currentFreeItems c then
                      (st\<lparr>lastBxgyActionTime := now\<rparr>,
                       removeBxgyFreeItems net c (currentFreeItems c))
                    else if 2000 \<le> timeSinceLastAction then
                      (let (t, done) =
                             applyAutomaticBxgyReward net off c earnedFreeItems later
                               (lastBxgyActionTime st)
                       in (st\<lparr>lastBxgyActionTime := t\<rparr>, done))
                    else (st, []))
                 else (st, []))
          in (st'\<lparr>lastBxgyState := (earnedCycles, earnedFreeItems)\<rparr>, evs))"

subsection \<open>The page: the shop behind fetch, the clock and the settings\<close>

text \<open>
  What \<^verbatim>\<open>fetch('/cart.js')\<close> followed by \<^verbatim>\<open>response.json()\<close> gives
  \<^verbatim>\<open>refreshCart\<close>: an exception (a rejected request, a body that is no
  JSON), thrown before \<^verbatim>\<open>this.cart\<close> is assigned, or a cart. A body that is
  JSON is taken to be a cart, with its list of lines and its total: the status
  of the response is not looked at.
\<close>

datatype fetched = FetchFailed | NewCart cart

text \<open>
  The shop changes with the requests it gets, so it is a state \<open>'w\<close> with a
  transition for each thing the code asks of the outside: a request through
  \<^verbatim>\<open>fetch\<close>, the request for \<^verbatim>\<open>/cart.js\<close>, the request for the drawer's
  section (which tells whether \<^verbatim>\<open>reloadDrawerSection\<close> got through its
  \<^verbatim>\<open>try\<close> block), a reading of \<^verbatim>\<open>Date.now()\<close>. The settings and
  \<^verbatim>\<open>parseFloat\<close> do not change during a session.
\<close>

record ('w, 'n) page =
  page_fetch :: "'w \<Rightarrow> request \<Rightarrow> 'w \<times> response"
  page_cart_js :: "'w \<Rightarrow> 'w \<times> fetched"
  page_section :: "'w \<Rightarrow> 'w \<times> bool"
  page_date_now :: "'w \<Rightarrow> 'w \<times> int"
  page_parseFloat :: "string option \<Rightarrow> 'n option"
  page_bxgyEnabled :: bool
  page_bxgyOffers :: "offer list"

text \<open>
  The fields of \<^verbatim>\<open>this\<close> that a pass reads and writes. \<^verbatim>\<open>this.cart\<close> is
  \<open>None\<close> while it is null.
  \<^verbatim>\<open>appliedRewards\<close> is a \<^verbatim>\<open>Set\<close>: a list of entries in insertion order in
  which \<^verbatim>\<open>delete\<close> leaves a hole (\<open>None\<close>), \<^verbatim>\<open>add\<close> appends a value that is
  not there, and a \<^verbatim>\<open>for ... of\<close> walks the entries by position, holes
  skipped, up to the end the list has when the walk gets there.
  \<^verbatim>\<open>rewardTiers\<close> is a field because \<^verbatim>\<open>sort\<close> sorts it in place.
\<close>

record engine =
  this_cart :: "cart option"
  rewardTiers :: "tier list"
  appliedRewards :: "reward_key option list"
  lastRewardsState :: "nat \<times> bool"
  bxgyFreeItemKeys :: "string \<rightharpoonup> int"
  bxgyFields :: bxgy_state

definition Set_has :: "reward_key option list \<Rightarrow> reward_key \<Rightarrow> bool" where
  "Set_has entries k = (Some k \<in> set entries)"

definition Set_add :: "reward_key option list \<Rightarrow> reward_key \<Rightarrow> reward_key option list" where
  "Set_add entries k = (if Set_has entries k then entries else entries @ [Some k])"

definition Set_delete :: "reward_key option list \<Rightarrow> reward_key \<Rightarrow> reward_key option list" where
  "Set_delete entries k = map (\<lambda>x. if x = Some k then None else x) entries"

text \<open>
  An asynchronous function of the engine takes the shop and the engine as they
  are and gives them back with the events it caused, or \<open>None\<close> when it does
  not return.
\<close>

type_synonym 'w outcome = "(('w \<times> engine) \<times> event list) option"

definition and_then ::
  "'w outcome \<Rightarrow> ('w \<times> engine \<Rightarrow> 'w outcome) \<Rightarrow> 'w outcome" where
  "and_then first next =
     (case first of
        None \<Rightarrow> None
      | Some (s, evs) \<Rightarrow>
          (case next s of
             None \<Rightarrow> None
           | Some (s', evs') \<Rightarrow> Some (s', evs @ evs')))"

subsection \<open>The Buy-X-Get-Y pass against the shop\<close>

text \<open>
  The functions of the Buy-X-Get-Y pass once more, now with the shop threaded
  through their requests and the clock read where the code reads it.
\<close>

fun remove_free_units_at ::
  "('w \<Rightarrow> request \<Rightarrow> 'w \<times> response) \<Rightarrow> item list \<Rightarrow> int \<Rightarrow> 'w \<Rightarrow> 'w \<times> event list" where
  "remove_free_units_at fetch [] remaining w = (w, [])"
| "remove_free_units_at fetch (it # its) remaining w =
     (if remaining \<le> 0 then (w, [])
      else
        let removeQty = min (quantity it) remaining;
            newQty = quantity it - removeQty;
            change = CartChange (key it) newQty;
            (w1, answer) = fetch w change
        in (case answer of
              Rejected \<Rightarrow>
                (w1, [Fetch change, ConsoleError ''PopCart: Error removing BXGY free items:''])
            | Resolved _ _ \<Rightarrow>
                (let (w2, evs) = remove_free_units_at fetch its (remaining - removeQty) w1
                 in (w2, Fetch change # evs))))"

definition removeBxgyFreeItems_at ::
  "('w \<Rightarrow> request \<Rightarrow> 'w \<times> response) \<Rightarrow> cart \<Rightarrow> int \<Rightarrow> 'w \<Rightarrow> 'w \<times> event list" where
  "removeBxgyFreeItems_at fetch c n w =
     (if n \<le> 0 then (w, [])
      else remove_free_units_at fetch (filter (tagged ''_popcart_bxgy_free'') (items c)) n w)"

definition addAutomaticBxgyItem_at ::
  "('w \<Rightarrow> request \<Rightarrow> 'w \<times> response) \<Rightarrow> offer \<Rightarrow> string \<Rightarrow> int \<Rightarrow> 'w
     \<Rightarrow> 'w \<times> event list" where
  "addAutomaticBxgyItem_at fetch off productHandle n w =
     (let (w1, looked) = fetch w (GetProduct productHandle) in
      case looked of
        Rejected \<Rightarrow>
          (w1, [Fetch (GetProduct productHandle),
                ConsoleError ''PopCart: Error adding automatic BXGY item:'', RefreshLater])
      | Resolved ok variants \<Rightarrow>
          if \<not> ok then
            (w1, [Fetch (GetProduct productHandle),
                  ConsoleWarn ''PopCart: Could not find automatic BXGY product:'', RefreshLater])
          else
            (case variants of
               [] \<Rightarrow>
                 (w1, [Fetch (GetProduct productHandle),
                       ConsoleError ''PopCart: Error adding automatic BXGY item:'', RefreshLater])
             | variant # _ \<Rightarrow>
                 (let add = CartAdd variant n
                        [(''_popcart_bxgy_free'', ''true''),
                         (''_popcart_bxgy_offer'', title off),
                         (''_popcart_gift_name'', title off @ '' - Free Item'')];
                      (w2, added) = fetch w1 add
                  in (case added of
                        Rejected \<Rightarrow>
                          (w2, [Fetch (GetProduct productHandle), Fetch add,
                                ConsoleError ''PopCart: Error adding automatic BXGY item:'',
                                RefreshLater])
                      | Resolved _ _ \<Rightarrow>
                          (w2, [Fetch (GetProduct productHandle), Fetch add, RefreshLater])))))"

text \<open>
  \<^verbatim>\<open>applyAutomaticBxgyReward\<close> gives back the shop, the new
  \<^verbatim>\<open>lastBxgyActionTime\<close> and its events.
\<close>

definition applyAutomaticBxgyReward_at ::
  "('w, 'n) page \<Rightarrow> offer \<Rightarrow> cart \<Rightarrow> int \<Rightarrow> int \<Rightarrow> 'w \<Rightarrow> 'w \<times> int \<times> event list" where
  "applyAutomaticBxgyReward_at p off c earnedFreeItems lastAction w =
     (if automaticProductHandle off = [] then
        (w, lastAction,
         [ConsoleWarn ''PopCart: No automatic product handle configured for BXGY offer''])
      else if earnedFreeItems = currentFreeItems c then (w, lastAction, [])
      else
        let (w1, later) = page_date_now p w in
        if currentFreeItems c < earnedFreeItems then
          (let (w2, evs) = addAutomaticBxgyItem_at (page_fetch p) off (automaticProductHandle off)
                             (earnedFreeItems - currentFreeItems c) w1
           in (w2, later, evs))
        else
          (let (w2, evs) = removeBxgyFreeItems_at (page_fetch p) c
                             (currentFreeItems c - earnedFreeItems) w1
           in (w2, later, evs)))"

fun applyBxgyRewards_at ::
  "('w, 'n) page \<Rightarrow> cart \<Rightarrow> 'w \<times> bxgy_state \<Rightarrow> ('w \<times> bxgy_state) \<times> event list" where
  "applyBxgyRewards_at p c (w, st) =
     (if isApplyingBxgy st then ((w, st), [])
      else
        let (w1, now) = page_date_now p w in
        if \<not> page_bxgyEnabled p then ((w1, st), [HidePicker])
        else
          (case page_bxgyOffers p of
             [] \<Rightarrow> ((w1, st), [HidePicker])
           | off # _ \<Rightarrow>
               (let timeSinceLastAction = now - lastBxgyActionTime st;
                    mode = or_string (rewardMode off) ''cheapest_in_cart'';
                    qualifyingQty = calculateBxgyQualifyingQuantity c off;
                    buyQty = or_number (buyQuantity off) 3;
                    getQty = or_number (getQuantity off) 1;
                    earnedCycles = qualifyingQty div buyQty;
                    earnedFreeItems = earnedCycles * getQty;
                    ((w2, st'), evs) =
                      (if mode = ''cheapest_in_cart'' then ((w1, st), [HidePicker])
                       else if mode = ''selection'' then
                         (if earnedFreeItems = 0 \<and> 0 < currentFreeItems c then
                            (let (w', evs') =
                                   removeBxgyFreeItems_at (page_fetch p) c (currentFreeItems c) w1
                             in ((w', st\<lparr>lastBxgyActionTime := now\<rparr>), evs' @ [HidePicker]))
                          else if earnedFreeItems < currentFreeItems c then
                            (if timeSinceLastAction < 2000 then ((w1, st), [])
                             else
                               (let (w', evs') =
                                      removeBxgyFreeItems_at (page_fetch p) c
                                        (currentFreeItems c - earnedFreeItems) w1
                                in ((w', st\<lparr>lastBxgyActionTime := now\<rparr>), evs')))
                          else if 0 < earnedFreeItems then
                            (let (slots, shown) = showSelectionPicker earnedFreeItems c
                             in ((w1, st\<lparr>remainingFreeSlots := slots\<rparr>), shown))
                          else ((w1, st), [HidePicker]))
                       else if mode = ''automatic'' then
                         (if earnedFreeItems = 0 \<and> 0 < currentFreeItems c then
                            (let (w', evs') =
                                   removeBxgyFreeItems_at (page_fetch p) c (currentFreeItems c) w1
                             in ((w', st\<lparr>lastBxgyActionTime := now\<rparr>), evs'))
                          else if 2000 \<le> timeSinceLastAction then
                            (let (w', t, evs') =
                                   applyAutomaticBxgyReward_at p off c earnedFreeItems
                                     (lastBxgyActionTime st) w1
                             in ((w', st\<lparr>lastBxgyActionTime := t\<rparr>), evs'))
                          else ((w1, st), []))
                       else ((w1, st), []))
                in ((w2, st'\<lparr>lastBxgyState := (earnedCycles, earnedFreeItems)\<rparr>), evs))))"

subsection \<open>The reward-tier pass\<close>

text \<open>
  \<^verbatim>\<open>addFreeGiftToCart\<close> and \<^verbatim>\<open>removeFreeGiftFromCart\<close> await
  \<^verbatim>\<open>this.refreshCart()\<close> after a request that was answered, and the refresh
  runs a whole pass on the cart it fetches before it returns. The functions of
  the pass therefore take \<open>refresh\<close>, what that call does, as their first
  argument; \<open>refreshCart\<close> below closes the circle.

  \<^verbatim>\<open>addFreeGiftToCart\<close>: an exception anywhere in the body (a rejected request,
  a product without a first variant) ends in the \<^verbatim>\<open>catch\<close>, which logs and
  returns. The gift is looked for in \<^verbatim>\<open>this.cart\<close>. The response of
  \<^verbatim>\<open>/cart/add.js\<close> is not looked at: whatever the status, the cart is
  refreshed. Nothing is returned to the caller.
\<close>

fun addFreeGiftToCart ::
  "('w \<times> engine \<Rightarrow> 'w outcome) \<Rightarrow> ('w, 'n) page \<Rightarrow> tier \<Rightarrow> 'w \<times> engine \<Rightarrow> 'w outcome" where
  "addFreeGiftToCart refresh p t (w, e) =
     (if falsy (rewardValue t) then Some ((w, e), [])
      else
        let handle = the (rewardValue t);
            (w1, looked) = page_fetch p w (GetProduct handle)
        in (case looked of
              Rejected \<Rightarrow>
                Some ((w1, e), [Fetch (GetProduct handle),
                                ConsoleError ''PopCart: Error adding free gift:''])
            | Resolved ok variants \<Rightarrow>
                if \<not> ok then
                  Some ((w1, e), [Fetch (GetProduct handle),
                                  ConsoleWarn ''PopCart: Could not find free gift product:''])
                else
                  (case variants of
                     [] \<Rightarrow>
                       Some ((w1, e), [Fetch (GetProduct handle),
                                       ConsoleError ''PopCart: Error adding free gift:''])
                   | variant # _ \<Rightarrow>
                       if (case this_cart e of
                             None \<Rightarrow> False
                           | Some mirror \<Rightarrow>
                               \<exists>it \<in> set (items mirror).
                                 variant_id it = variant \<and> tagged ''_popcart_free_gift'' it)
                       then Some ((w1, e), [Fetch (GetProduct handle)])
                       else
                         (let add = CartAdd variant 1
                                [(''_popcart_free_gift'', ''true''),
                                 (''_popcart_tier_threshold'', toString_int (threshold t)),
                                 (''_popcart_gift_name'', tier_title t)];
                              (w2, added) = page_fetch p w1 add
                          in (case added of
                                Rejected \<Rightarrow>
                                  Some ((w2, e), [Fetch (GetProduct handle), Fetch add,
                                                  ConsoleError ''PopCart: Error adding free gift:''])
                              | Resolved _ _ \<Rightarrow>
                                  and_then (Some ((w2, e), [Fetch (GetProduct handle), Fetch add]))
                                    refresh)))))"

definition applyReward ::
  "('w \<times> engine \<Rightarrow> 'w outcome) \<Rightarrow> ('w, 'n) page \<Rightarrow> tier \<Rightarrow> 'w \<times> engine \<Rightarrow> 'w outcome" where
  "applyReward refresh p t s =
     (case rewardType t of
        free_gift \<Rightarrow> addFreeGiftToCart refresh p t s
      | free_shipping \<Rightarrow> Some (s, [])
      | discount_percent \<Rightarrow> Some (s, [])
      | discount_fixed \<Rightarrow> Some (s, []))"

fun removeFreeGiftFromCart ::
  "('w \<times> engine \<Rightarrow> 'w outcome) \<Rightarrow> ('w, 'n) page \<Rightarrow> tier \<Rightarrow> 'w \<times> engine \<Rightarrow> 'w outcome" where
  "removeFreeGiftFromCart refresh p t (w, e) =
     (case this_cart e of
        None \<Rightarrow> Some ((w, e), [])
      | Some mirror \<Rightarrow>
          (case find (\<lambda>it. tagged ''_popcart_free_gift'' it
                        \<and> properties it ''_popcart_tier_threshold''
                            = Some (toString_int (threshold t))) (items mirror) of
             None \<Rightarrow> Some ((w, e), [])
           | Some giftItem \<Rightarrow>
               (let change = CartChange (key giftItem) 0;
                    (w1, answer) = page_fetch p w change
                in (case answer of
                      Rejected \<Rightarrow>
                        Some ((w1, e), [Fetch change,
                                        ConsoleError ''PopCart: Error removing free gift:''])
                    | Resolved _ _ \<Rightarrow>
                        and_then (Some ((w1, e), [Fetch change])) refresh))))"

definition removeReward ::
  "('w \<times> engine \<Rightarrow> 'w outcome) \<Rightarrow> ('w, 'n) page \<Rightarrow> tier \<Rightarrow> 'w \<times> engine \<Rightarrow> 'w outcome" where
  "removeReward refresh p t s =
     (if rewardType t = free_gift \<and> \<not> falsy (rewardValue t)
      then removeFreeGiftFromCart refresh p t s else Some (s, []))"

text \<open>
  The first loop of \<^verbatim>\<open>applyRewards\<close>, over the array of unlocked tiers: a tier
  whose key is not in the set is applied, and its key is added when
  \<^verbatim>\<open>applyReward\<close> has returned.
\<close>

fun apply_unlocked ::
  "('w \<times> engine \<Rightarrow> 'w outcome) \<Rightarrow> ('w, 'n) page \<Rightarrow> tier list \<Rightarrow> 'w \<times> engine \<Rightarrow> 'w outcome" where
  "apply_unlocked refresh p [] s = Some (s, [])"
| "apply_unlocked refresh p (t # ts) (w, e) =
     (if Set_has (appliedRewards e) (rewardKey t) then apply_unlocked refresh p ts (w, e)
      else
        and_then (applyReward refresh p t (w, e))
          (\<lambda>(w1, e1).
             apply_unlocked refresh p ts
               (w1, e1\<lparr>appliedRewards := Set_add (appliedRewards e1) (rewardKey t)\<rparr>)))"

text \<open>
  The second loop walks the set by position. The set can grow while it is
  walked, through the passes that run inside \<^verbatim>\<open>removeReward\<close>, so the walk is
  given a number of steps; with none left it does not return.
\<close>

fun remove_locked ::
  "('w \<times> engine \<Rightarrow> 'w outcome) \<Rightarrow> ('w, 'n) page \<Rightarrow> tier list \<Rightarrow> reward_key list
     \<Rightarrow> nat \<Rightarrow> nat \<Rightarrow> 'w \<times> engine \<Rightarrow> 'w outcome" where
  "remove_locked refresh p tiers unlockedRewardKeys steps i (w, e) =
     (if length (appliedRewards e) \<le> i then Some ((w, e), [])
      else
        (case steps of
           0 \<Rightarrow> None
         | Suc steps' \<Rightarrow>
             (case appliedRewards e ! i of
                None \<Rightarrow> remove_locked refresh p tiers unlockedRewardKeys steps' (Suc i) (w, e)
              | Some appliedKey \<Rightarrow>
                  if appliedKey \<in> set unlockedRewardKeys
                  then remove_locked refresh p tiers unlockedRewardKeys steps' (Suc i) (w, e)
                  else
                    and_then
                      (case find_tier tiers appliedKey of
                         Some t \<Rightarrow> removeReward refresh p t (w, e)
                       | None \<Rightarrow> Some ((w, e), []))
                      (\<lambda>(w1, e1).
                         remove_locked refresh p tiers unlockedRewardKeys steps' (Suc i)
                           (w1, e1\<lparr>appliedRewards :=
                                     Set_delete (appliedRewards e1) appliedKey\<rparr>)))))"

text \<open>
  \<^verbatim>\<open>applyRewards\<close>. The walk of the second loop gets as many steps as the set
  has entries when it starts, and \<open>fuel\<close> more.
\<close>

fun applyRewards ::
  "('w \<times> engine \<Rightarrow> 'w outcome) \<Rightarrow> ('w, 'n::linorder) page \<Rightarrow> nat \<Rightarrow> cart \<Rightarrow> 'w \<times> engine
     \<Rightarrow> 'w outcome" where
  "applyRewards refresh p fuel c (w, e) =
     (if rewardTiers e = [] then Some ((w, e), [])
      else
        let cartTotal = total_price c;
            tiers = sort_key threshold (rewardTiers e);
            unlockedTiers = filter (\<lambda>t. threshold t \<le> cartTotal) tiers;
            unlockedRewardKeys = map rewardKey unlockedTiers
        in
          and_then (apply_unlocked refresh p unlockedTiers (w, e\<lparr>rewardTiers := tiers\<rparr>))
            (\<lambda>(w1, e1).
               and_then
                 (remove_locked refresh p tiers unlockedRewardKeys
                    (fuel + length (appliedRewards e1)) 0 (w1, e1))
                 (\<lambda>(w2, e2).
                    let hasFreeShipping = (\<exists>t \<in> set unlockedTiers. rewardType t = free_shipping);
                        stateChanged =
                          (length unlockedTiers \<noteq> fst (lastRewardsState e2)
                           \<or> hasFreeShipping \<noteq> snd (lastRewardsState e2))
                    in
                      if stateChanged then
                        Some ((fst (page_fetch p w2
                                      (CartUpdate (attributes (page_parseFloat p) unlockedTiers))),
                               e2\<lparr>lastRewardsState := (length unlockedTiers, hasFreeShipping)\<rparr>),
                              updateCartAttributes (page_parseFloat p)
                                (\<lambda>r. snd (page_fetch p w2 r)) unlockedTiers)
                      else Some ((w2, e2), []))))"

text \<open>
  \<^verbatim>\<open>updateCartUI\<close>, for a cart that has its list of lines: the progress pass
  stores the allocation, then the reward-tier pass and the Buy-X-Get-Y pass run.
  The rendering in between writes to the page only.
\<close>

fun updateCartUI ::
  "('w \<times> engine \<Rightarrow> 'w outcome) \<Rightarrow> ('w, 'n::linorder) page \<Rightarrow> nat \<Rightarrow> cart \<Rightarrow> 'w \<times> engine
     \<Rightarrow> 'w outcome" where
  "updateCartUI refresh p fuel c (w, e) =
     and_then
       (applyRewards refresh p fuel c
          (w, e\<lparr>bxgyFreeItemKeys :=
                  fst (updateBxgyProgress (page_bxgyEnabled p) (page_bxgyOffers p) c)\<rparr>))
       (\<lambda>(w1, e1).
          let ((w2, st), evs) = applyBxgyRewards_at p c (w1, bxgyFields e1)
          in Some ((w2, e1\<lparr>bxgyFields := st\<rparr>), evs))"

text \<open>
  \<^verbatim>\<open>reloadDrawerSection\<close> asks for the section and replaces the lines shown
  in the drawer; any exception on the way is caught and a warning logged.
\<close>

definition reloadDrawerSection :: "('w, 'n) page \<Rightarrow> 'w \<Rightarrow> 'w \<times> event list" where
  "reloadDrawerSection p w =
     (let (w1, reloaded) = page_section p w
      in if reloaded then (w1, [ReloadSection])
         else (w1, [ReloadSection, ConsoleWarn ''PopCart: Could not reload section'']))"

text \<open>
  \<^verbatim>\<open>refreshCart\<close>, given what the refreshes inside it do. What follows
  \<^verbatim>\<open>updateCartUI\<close> in its \<^verbatim>\<open>try\<close> block, the progress bar and the
  \<^verbatim>\<open>popcart:updated\<close> event, writes to the page only.
\<close>

fun refresh_pass ::
  "('w \<times> engine \<Rightarrow> 'w outcome) \<Rightarrow> ('w, 'n::linorder) page \<Rightarrow> nat \<Rightarrow> 'w \<times> engine \<Rightarrow> 'w outcome" where
  "refresh_pass refresh p fuel (w, e) =
     (let (w1, got) = page_cart_js p w in
      case got of
        FetchFailed \<Rightarrow>
          (let (w2, evs) = reloadDrawerSection p w1
           in Some ((w2, e), [Refresh, ConsoleError ''PopCart: Error refreshing cart''] @ evs))
      | NewCart c \<Rightarrow>
          and_then (Some ((w1, e\<lparr>this_cart := Some c\<rparr>), [Refresh]))
            (updateCartUI refresh p fuel c))"

text \<open>
  \<^verbatim>\<open>refreshCart\<close> itself. Nothing in the code bounds how deep a refresh can
  lead into further refreshes, so the depth is counted: with fuel \<open>n\<close> a
  refresh returns what the code returns when no chain of refreshes inside it is
  longer than \<open>n\<close> and no walk of the set takes more than its steps, and
  \<open>None\<close> otherwise.
\<close>

primrec refreshCart :: "nat \<Rightarrow> ('w, 'n::linorder) page \<Rightarrow> 'w \<times> engine \<Rightarrow> 'w outcome" where
  "refreshCart 0 p = (\<lambda>s. None)"
| "refreshCart (Suc n) p = refresh_pass (refreshCart n p) p n"

subsection \<open>The qualifying quantity in the specification's words\<close>

text \<open>
  The qualifying quantity in the specification's words: the sum of the quantities
  of the lines the offer applies to, leaving out the lines tagged as free.
\<close>

definition qualifying_quantity :: "cart \<Rightarrow> offer \<Rightarrow> int" where
  "qualifying_quantity c off =
     (\<Sum>it \<leftarrow> items c.
        if itemQualifiesForBxgy it off \<and> \<not> tagged ''_popcart_free_gift'' it
           \<and> \<not> tagged ''_popcart_bxgy_free'' it
        then quantity it else 0)"

subsection \<open>The requests a removal sets out to make\<close>

text \<open>
  The \<^verbatim>\<open>/cart/change.js\<close> requests that the loop of \<^verbatim>\<open>removeBxgyFreeItems\<close>
  makes for a list of free lines and a number of units when no request is
  rejected: the loop with the network taken out.
\<close>

fun planned_changes :: "item list \<Rightarrow> int \<Rightarrow> request list" where
  "planned_changes [] remaining = []"
| "planned_changes (it # its) remaining =
     (if remaining \<le> 0 then []
      else CartChange (key it) (quantity it - min (quantity it) remaining)
             # planned_changes its (remaining - min (quantity it) remaining))"

subsection \<open>The best discount in the specification's words\<close>

text \<open>
  A tier \<open>b\<close> of a set of discount tiers is the one to choose when it is a
  percentage tier whenever the set has one, and no tier of its own reward type in
  the set has a larger value. The values are what \<^verbatim>\<open>parseFloat\<close> reads.
\<close>

definition preferred_discount ::
  "(string option \<Rightarrow> 'n::linorder option) \<Rightarrow> tier set \<Rightarrow> tier \<Rightarrow> bool" where
  "preferred_discount parseFloat S b =
     (b \<in> S
      \<and> (\<forall>t \<in> S. rewardType t = discount_percent \<longrightarrow> rewardType b = discount_percent)
      \<and> (\<forall>t \<in> S. rewardType t = rewardType b \<longrightarrow>
            the (parseFloat (rewardValue t)) \<le> the (parseFloat (rewardValue b))))"

subsection \<open>Example carts\<close>

text \<open>A paid line and a line that carries the BXGY free tag.\<close>

definition paid_line :: "string \<Rightarrow> nat \<Rightarrow> int \<Rightarrow> int \<Rightarrow> item" where
  "paid_line k pid qty cents =
     \<lparr>key = k, product_id = pid, variant_id = pid, quantity = qty, price = cents,
      properties = Map.empty\<rparr>"

definition free_line :: "string \<Rightarrow> nat \<Rightarrow> int \<Rightarrow> int \<Rightarrow> item" where
  "free_line k pid qty cents =
     \<lparr>key = k, product_id = pid, variant_id = pid, quantity = qty, price = cents,
      properties = [''_popcart_bxgy_free'' \<mapsto> ''true'']\<rparr>"

definition bxgy_offer :: "int \<Rightarrow> int \<Rightarrow> string \<Rightarrow> string \<Rightarrow> offer" where
  "bxgy_offer b g mode applies =
     \<lparr>title = ''Bundle'', buyQuantity = b, getQuantity = g, rewardMode = mode,
      appliesToType = applies, productIds = NoProductIds, automaticProductHandle = ''gift''\<rparr>"

text \<open>The cart of the specification's allocator example: A at 5.00, B at 2.00, C at 8.00.\<close>

definition abc_cart :: cart where
  "abc_cart =
     \<lparr>items = [paid_line ''A'' 1 3 500, paid_line ''B'' 2 2 200, paid_line ''C'' 3 1 800],
      total_price = 2700\<rparr>"

definition three_units :: cart where
  "three_units = \<lparr>items = [paid_line ''A'' 1 3 500], total_price = 1500\<rparr>"

text \<open>Three paid units of A and two free lines of one unit each.\<close>

definition two_free_lines :: cart where
  "two_free_lines =
     \<lparr>items = [paid_line ''A'' 1 3 500, free_line ''F1'' 8 1 300, free_line ''F2'' 9 1 400],
      total_price = 1500\<rparr>"

text \<open>
  A network that resolves every request (a product has the variant 7), and one
  that rejects a single request.
\<close>

definition online :: network where
  "online r = Resolved True [7]"

definition rejecting :: "request \<Rightarrow> network" where
  "rejecting q r = (if r = q then Rejected else Resolved True [7])"

definition idle :: bxgy_state where
  "idle = \<lparr>isApplyingBxgy = False, lastBxgyActionTime = 0, lastBxgyState = (0, 0),
           remainingFreeSlots = 0\<rparr>"

text \<open>Reward tiers and a reading of their values.\<close>

definition reward_tier :: "int \<Rightarrow> reward_type \<Rightarrow> string \<Rightarrow> tier" where
  "reward_tier cents ty v =
     \<lparr>threshold = cents, rewardType = ty, rewardValue = Some v, tier_title = ''Reward''\<rparr>"

definition read_number :: "string option \<Rightarrow> int option" where
  "read_number v =
     (if v = Some ''5'' then Some 5
      else if v = Some ''10'' then Some 10
      else if v = Some ''20'' then Some 20
      else if v = Some ''500'' then Some 500
      else None)"

text \<open>
  A free-gift tier at 10.00 whose gift is the product \<^verbatim>\<open>mug\<close>, and the request
  that adds the gift (the first variant of every product of the example networks
  is 7).
\<close>

definition mug_tier :: tier where
  "mug_tier = reward_tier 1000 free_gift ''mug''"

definition mug_add :: request where
  "mug_add = CartAdd 7 1
     [(''_popcart_free_gift'', ''true''), (''_popcart_tier_threshold'', ''1000''),
      (''_popcart_gift_name'', ''Reward'')]"

text \<open>
  A page whose shop answers each request for \<^verbatim>\<open>/cart.js\<close> with the next cart of
  a list, the carts as the requests before have left them, and answers every
  other request as the network \<open>net\<close> does. When the list is used up the request
  for the cart fails. The section of the drawer can always be reloaded, the clock
  stands at 0 and no Buy-X-Get-Y offer is configured.
\<close>

definition scripted :: "network \<Rightarrow> (cart list, int) page" where
  "scripted net =
     \<lparr>page_fetch = (\<lambda>w r. (w, net r)),
      page_cart_js = (\<lambda>w. case w of [] \<Rightarrow> ([], FetchFailed) | c # cs \<Rightarrow> (cs, NewCart c)),
      page_section = (\<lambda>w. (w, True)),
      page_date_now = (\<lambda>w. (w, 0)),
      page_parseFloat = read_number,
      page_bxgyEnabled = False,
      page_bxgyOffers = []\<rparr>"

text \<open>
  A line that carries the free-gift tag and the threshold of its tier; a second
  free-gift tier, at 20.00, whose gift is the product \<^verbatim>\<open>cap\<close>; and a shop that
  answers every request and knows both products, the mug with variant 7 and the
  cap with variant 8.
\<close>

definition gift_line :: "string \<Rightarrow> nat \<Rightarrow> string \<Rightarrow> int \<Rightarrow> item" where
  "gift_line k variant thresholdText cents =
     \<lparr>key = k, product_id = variant, variant_id = variant, quantity = 1, price = cents,
      properties = [''_popcart_free_gift'' \<mapsto> ''true'',
                    ''_popcart_tier_threshold'' \<mapsto> thresholdText]\<rparr>"

definition cap_tier :: tier where
  "cap_tier = reward_tier 2000 free_gift ''cap''"

definition gift_shop :: network where
  "gift_shop r =
     (case r of
        GetProduct handle \<Rightarrow>
          (if handle = ''mug'' then Resolved True [7]
           else if handle = ''cap'' then Resolved True [8]
           else Resolved False [])
      | CartAdd variant n props \<Rightarrow> Resolved True []
      | CartChange k n \<Rightarrow> Resolved True []
      | CartUpdate attrs \<Rightarrow> Resolved True [])"

text \<open>
  A cart with one paid line and both gifts, which have a price; the same cart
  once the cap is removed; and once the mug is removed too.
\<close>

definition with_both_gifts :: cart where
  "with_both_gifts =
     \<lparr>items = [paid_line ''A'' 1 1 600, gift_line ''M'' 7 ''1000'' 300,
               gift_line ''C'' 8 ''2000'' 500],
      total_price = 1400\<rparr>"

definition with_mug :: cart where
  "with_mug =
     \<lparr>items = [paid_line ''A'' 1 1 600, gift_line ''M'' 7 ''1000'' 300], total_price = 900\<rparr>"

definition without_gifts :: cart where
  "without_gifts = \<lparr>items = [paid_line ''A'' 1 1 600], total_price = 600\<rparr>"

text \<open>
  The engine as a session has left it: the cart it fetched last, the tiers, the
  set of applied keys and the reward state it wrote last; nothing of the
  Buy-X-Get-Y pass has happened.
\<close>

definition session ::
  "cart \<Rightarrow> tier list \<Rightarrow> reward_key option list \<Rightarrow> nat \<times> bool \<Rightarrow> engine" where
  "session c tiers applied observed =
     \<lparr>this_cart = Some c, rewardTiers = tiers, appliedRewards = applied,
      lastRewardsState = observed, bxgyFreeItemKeys = Map.empty, bxgyFields = idle\<rparr>"


definition unavailable :: network where
  "unavailable r =
     (case r of
        GetProduct handle \<Rightarrow> Resolved True [7]
      | CartAdd variant n props \<Rightarrow> Resolved False []
      | CartChange k n \<Rightarrow> Resolved True []
      | CartUpdate attrs \<Rightarrow> Resolved True [])"

definition steady :: "cart \<Rightarrow> network \<Rightarrow> (unit, int) page" where
  "steady c net =
     \<lparr>page_fetch = (\<lambda>w r. (w, net r)),
      page_cart_js = (\<lambda>w. (w, NewCart c)),
      page_section = (\<lambda>w. (w, True)),
      page_date_now = (\<lambda>w. (w, 0)),
      page_parseFloat = read_number,
      page_bxgyEnabled = False,
      page_bxgyOffers = []\<rparr>"

section \<open>Properties\<close>

subsection \<open>Qualifying quantity\<close>

lemma foldl_qualifying_step:
  "foldl (qualifying_step off) acc xs =
     acc + (\<Sum>it \<leftarrow> xs.
        if itemQualifiesForBxgy it off \<and> \<not> tagged ''_popcart_free_gift'' it
           \<and> \<not> tagged ''_popcart_bxgy_free'' it
        then quantity it else 0)"
  by (induction xs arbitrary: acc) (simp_all add: qualifying_step_def)

lemma calculateBxgyQualifyingQuantity_eq:
  "calculateBxgyQualifyingQuantity c off = qualifying_quantity c off"
  by (simp add: calculateBxgyQualifyingQuantity_def qualifying_quantity_def
      foldl_qualifying_step)

lemma qualifying_quantity_filter:
  "qualifying_quantity c off =
     sum_list (map quantity (filter (countsTowardsOffer off) (items c)))"
proof -
  have "(\<Sum>it \<leftarrow> xs.
          if itemQualifiesForBxgy it off \<and> \<not> tagged ''_popcart_free_gift'' it
             \<and> \<not> tagged ''_popcart_bxgy_free'' it
          then quantity it else 0)
        = sum_list (map quantity (filter (countsTowardsOffer off) xs))" for xs
    by (induction xs) (simp_all add: countsTowardsOffer_def)
  then show ?thesis
    by (simp add: qualifying_quantity_def)
qed

lemmas example_defs = paid_line_def free_line_def bxgy_offer_def abc_cart_def three_units_def

lemma qq_abc: "qualifying_quantity abc_cart (bxgy_offer b g m ''all'') = 6"
  by (simp add: qualifying_quantity_def example_defs itemQualifiesForBxgy_def tagged_def)

lemma qq_three: "qualifying_quantity three_units (bxgy_offer b g m ''all'') = 3"
  by (simp add: qualifying_quantity_def example_defs itemQualifiesForBxgy_def tagged_def)


text \<open>
  C1. In \<^verbatim>\<open>cheapest_in_cart\<close> mode with B \<ge> 1 and G \<ge> 1 the progress pass earns
  max(0, min(G, Q - B)) free items, where Q is the qualifying quantity: the sum of
  the quantities of the lines the offer applies to, without the lines tagged
  \<^verbatim>\<open>_popcart_free_gift\<close> or \<^verbatim>\<open>_popcart_bxgy_free\<close>. The allocation it stores is
  computed for that number. A cart with exactly Q = B qualifying units earns no
  free item.
\<close>

theorem cheapest_in_cart_entitlement:
  assumes "rewardMode off = ''cheapest_in_cart''"
    and "1 \<le> buyQuantity off" and "1 \<le> getQuantity off"
  shows "updateBxgyProgress True (off # others) c =
           (calculateCheapestFreeItems c off
              (max 0 (min (getQuantity off) (qualifying_quantity c off - buyQuantity off))),
            Some (off, qualifying_quantity c off,
                  max 0 (min (getQuantity off) (qualifying_quantity c off - buyQuantity off)),
                  countBxgyFreeItemsInCart c))
         \<and> (qualifying_quantity c off = buyQuantity off \<longrightarrow>
              updateBxgyProgress True (off # others) c =
                (Map.empty, Some (off, buyQuantity off, 0, countBxgyFreeItemsInCart c)))"
  using assms
  by (simp add: updateBxgyProgress_def Let_def or_number_def or_string_def
      calculateBxgyQualifyingQuantity_eq calculateCheapestFreeItems_def)

theorem cheapest_in_cart_entitlement_witness:
  "snd (updateBxgyProgress True [bxgy_offer 3 3 ''cheapest_in_cart'' ''all''] abc_cart)
     = Some (bxgy_offer 3 3 ''cheapest_in_cart'' ''all'', 6, 3, 0)
   \<and> updateBxgyProgress True [bxgy_offer 3 3 ''cheapest_in_cart'' ''all''] three_units
     = (Map.empty, Some (bxgy_offer 3 3 ''cheapest_in_cart'' ''all'', 3, 0, 0))"
proof -
  let ?off = "bxgy_offer 3 3 ''cheapest_in_cart'' ''all''"
  have mode: "rewardMode ?off = ''cheapest_in_cart''" by (simp add: bxgy_offer_def)
  have b: "1 \<le> buyQuantity ?off" by (simp add: bxgy_offer_def)
  have g: "1 \<le> getQuantity ?off" by (simp add: bxgy_offer_def)
  have count: "countBxgyFreeItemsInCart abc_cart = 0" "countBxgyFreeItemsInCart three_units = 0"
    by (simp_all add: countBxgyFreeItemsInCart_def example_defs tagged_def)
  have "buyQuantity ?off = 3" "getQuantity ?off = 3" by (simp_all add: bxgy_offer_def)
  then show ?thesis
    using cheapest_in_cart_entitlement [OF mode b g, of "[]" abc_cart]
      cheapest_in_cart_entitlement [OF mode b g, of "[]" three_units]
    by (simp add: qq_abc qq_three count calculateCheapestFreeItems_def)
qed

subsection \<open>The allocator\<close>

lemma sum_list_map_nonneg:
  "(\<And>x. x \<in> set xs \<Longrightarrow> (0::int) \<le> f x) \<Longrightarrow> 0 \<le> sum_list (map f xs)"
  by (induction xs) auto

lemma allocate_other:
  "k \<notin> cand_key ` set cs \<Longrightarrow> allocate cs r m k = m k"
  by (induction cs arbitrary: r m) (auto simp: Let_def)

lemma allocate_dom_finite:
  "finite (dom m) \<Longrightarrow> finite (dom (allocate cs r m))"
  by (induction cs arbitrary: r m) (auto simp: Let_def)

lemma sum_dom_upd:
  assumes "finite (dom m)" and "k \<notin> dom m"
  shows "(\<Sum>x \<in> dom (m(k \<mapsto> v)). the ((m(k \<mapsto> v)) x)) = v + (\<Sum>x \<in> dom m. the (m x))"
proof -
  have "(\<Sum>x \<in> dom m. the ((m(k \<mapsto> v)) x)) = (\<Sum>x \<in> dom m. the (m x))"
    using assms(2) by (intro sum.cong) auto
  then show ?thesis using assms by simp
qed

lemma allocate_sum:
  assumes "finite (dom m)" and "distinct (map cand_key cs)"
    and "cand_key ` set cs \<inter> dom m = {}"
    and "\<forall>c \<in> set cs. 0 \<le> cand_quantity c" and "0 \<le> r"
  shows "(\<Sum>k \<in> dom (allocate cs r m). the (allocate cs r m k))
         = (\<Sum>k \<in> dom m. the (m k)) + min r (sum_list (map cand_quantity cs))"
  using assms
proof (induction cs arbitrary: r m)
  case Nil
  then show ?case by simp
next
  case (Cons c cs)
  have nonneg: "0 \<le> sum_list (map cand_quantity cs)"
    using Cons.prems(4) by (intro sum_list_map_nonneg) simp
  show ?case
  proof (cases "r \<le> 0")
    case True
    with Cons.prems(5) have "r = 0" by simp
    with nonneg Cons.prems(4) show ?thesis by simp
  next
    case False
    let ?f = "min (cand_quantity c) r"
    let ?m = "m(cand_key c \<mapsto> ?f)"
    have k: "cand_key c \<notin> dom m" using Cons.prems(3) by auto
    have "(\<Sum>k \<in> dom (allocate cs (r - ?f) ?m). the (allocate cs (r - ?f) ?m k))
          = (\<Sum>k \<in> dom ?m. the (?m k)) + min (r - ?f) (sum_list (map cand_quantity cs))"
    proof (rule Cons.IH)
      show "finite (dom ?m)" using Cons.prems(1) by simp
      show "distinct (map cand_key cs)" using Cons.prems(2) by simp
      have "cand_key c \<notin> cand_key ` set cs" using Cons.prems(2) by auto
      then show "cand_key ` set cs \<inter> dom ?m = {}" using Cons.prems(3) by auto
      show "\<forall>c \<in> set cs. 0 \<le> cand_quantity c" using Cons.prems(4) by simp
      show "0 \<le> r - ?f" by simp
    qed
    also have "(\<Sum>k \<in> dom ?m. the (?m k)) = ?f + (\<Sum>k \<in> dom m. the (m k))"
      using Cons.prems(1) k by (rule sum_dom_upd)
    finally have total: "(\<Sum>k \<in> dom (allocate cs (r - ?f) ?m). the (allocate cs (r - ?f) ?m k))
          = ?f + (\<Sum>k \<in> dom m. the (m k)) + min (r - ?f) (sum_list (map cand_quantity cs))" .
    have step: "allocate (c # cs) r m = allocate cs (r - ?f) ?m"
      using False by (simp add: Let_def)
    have arith: "?f + min (r - ?f) (sum_list (map cand_quantity cs))
                 = min r (sum_list (map cand_quantity (c # cs)))"
      using nonneg False by (simp add: min_def)
    show ?thesis
      unfolding step total using arith by simp
  qed
qed

lemma allocate_nth:
  assumes "distinct (map cand_key cs)" and "\<forall>c \<in> set cs. 0 \<le> cand_quantity c"
    and "i < length cs"
  shows "allocate cs r m (cand_key (cs ! i)) =
           (if r - sum_list (map cand_quantity (take i cs)) \<le> 0 then m (cand_key (cs ! i))
            else Some (min (cand_quantity (cs ! i)) (r - sum_list (map cand_quantity (take i cs)))))"
  using assms
proof (induction cs arbitrary: i r m)
  case Nil
  then show ?case by simp
next
  case (Cons c cs)
  show ?case
  proof (cases i)
    case 0
    have "cand_key c \<notin> cand_key ` set cs" using Cons.prems(1) by auto
    then show ?thesis using 0 by (simp add: Let_def allocate_other)
  next
    case (Suc j)
    have nonneg: "0 \<le> sum_list (map cand_quantity (take j cs))"
      using Cons.prems(2) by (intro sum_list_map_nonneg) (auto dest: in_set_takeD)
    have neq: "cand_key (cs ! j) \<noteq> cand_key c"
    proof -
      have "cs ! j \<in> set cs" using Cons.prems(3) Suc by simp
      moreover have "cand_key c \<notin> cand_key ` set cs" using Cons.prems(1) by auto
      ultimately show ?thesis by (metis imageI)
    qed
    have IH: "allocate cs r' m' (cand_key (cs ! j)) =
           (if r' - sum_list (map cand_quantity (take j cs)) \<le> 0 then m' (cand_key (cs ! j))
            else Some (min (cand_quantity (cs ! j)) (r' - sum_list (map cand_quantity (take j cs)))))"
      for r' m'
      using Cons.prems Suc by (intro Cons.IH) auto
    show ?thesis
      using Suc nonneg neq Cons.prems(2)
      by (auto simp: Let_def IH min_def)
  qed
qed


lemma set_map_insort_key:
  "set (map h (insort_key g x xs)) = insert (h x) (set (map h xs))"
  by (induction xs) auto

lemma distinct_map_insort_key:
  "distinct (map h (insort_key g x xs)) = (h x \<notin> set (map h xs) \<and> distinct (map h xs))"
  by (induction xs) (auto simp: set_insort_key)

lemma distinct_map_sort_key:
  "distinct (map h (sort_key g xs)) = distinct (map h xs)"
  by (induction xs) (auto simp: distinct_map_insort_key)

lemma sum_list_map_insort_key:
  "sum_list (map h (insort_key g x xs)) = (h x :: int) + sum_list (map h xs)"
  by (induction xs) auto

lemma sum_list_map_sort_key:
  "sum_list (map h (sort_key g xs)) = (sum_list (map h xs) :: int)"
  by (induction xs) (auto simp: sum_list_map_insort_key)

lemma qualifyingItems_distinct:
  "distinct (map key (filter (countsTowardsOffer off) (items c)))
   \<Longrightarrow> distinct (map cand_key (qualifyingItems c off))"
  by (simp add: qualifyingItems_def distinct_map_sort_key comp_def candidate_def)

lemma qualifyingItems_quantity:
  "sum_list (map cand_quantity (qualifyingItems c off)) = qualifying_quantity c off"
  by (simp add: qualifyingItems_def sum_list_map_sort_key comp_def candidate_def
      qualifying_quantity_filter)

lemma qualifyingItems_set:
  "set (qualifyingItems c off) = candidate ` set (filter (countsTowardsOffer off) (items c))"
  by (simp add: qualifyingItems_def)

lemma qualifyingItems_nonneg:
  "\<forall>it \<in> set (filter (countsTowardsOffer off) (items c)). 0 \<le> quantity it
   \<Longrightarrow> \<forall>x \<in> set (qualifyingItems c off). 0 \<le> cand_quantity x"
  by (auto simp: qualifyingItems_set candidate_def)

lemma allocate_dom:
  "dom (allocate cs r m) \<subseteq> dom m \<union> cand_key ` set cs"
proof
  fix k
  assume k: "k \<in> dom (allocate cs r m)"
  show "k \<in> dom m \<union> cand_key ` set cs"
  proof (cases "k \<in> cand_key ` set cs")
    case True
    then show ?thesis by simp
  next
    case False
    then have "allocate cs r m k = m k" by (rule allocate_other)
    with k show ?thesis by (simp add: dom_def)
  qed
qed

text \<open>
  C2. For an entitlement N \<ge> 0 and a cart whose qualifying, non-free lines have
  distinct keys and quantities \<ge> 0, the allocator walks these lines in ascending
  unit-price order, lines of equal price in cart order, and gives the i-th line
  it walks min(quantity, what is left of N) free units as long as something is
  left. The free units of the resulting map add up to min(N, qualifying
  quantity), no line gets more free units than it has, and only qualifying
  lines get an entry.
\<close>

theorem cheapest_allocation:
  assumes N: "0 \<le> N"
    and keys: "distinct (map key (filter (countsTowardsOffer off) (items c)))"
    and qty: "\<forall>it \<in> set (filter (countsTowardsOffer off) (items c)). 0 \<le> quantity it"
  shows "sorted (map unitPrice (qualifyingItems c off))
    \<and> (\<forall>p. filter (\<lambda>x. unitPrice x = p) (qualifyingItems c off)
           = filter (\<lambda>x. unitPrice x = p)
               (map candidate (filter (countsTowardsOffer off) (items c))))
    \<and> (\<forall>i < length (qualifyingItems c off).
          calculateCheapestFreeItems c off N (cand_key (qualifyingItems c off ! i))
          = (if N - sum_list (map cand_quantity (take i (qualifyingItems c off))) \<le> 0 then None
             else Some (min (cand_quantity (qualifyingItems c off ! i))
                        (N - sum_list (map cand_quantity (take i (qualifyingItems c off)))))))
    \<and> (\<Sum>k \<in> dom (calculateCheapestFreeItems c off N).
          the (calculateCheapestFreeItems c off N k)) = min N (qualifying_quantity c off)
    \<and> (\<forall>it \<in> set (filter (countsTowardsOffer off) (items c)). \<forall>f.
          calculateCheapestFreeItems c off N (key it) = Some f \<longrightarrow> 0 \<le> f \<and> f \<le> quantity it)
    \<and> dom (calculateCheapestFreeItems c off N)
          \<subseteq> key ` set (filter (countsTowardsOffer off) (items c))"
proof -
  let ?ws = "qualifyingItems c off"
  let ?M = "calculateCheapestFreeItems c off N"
  have dist: "distinct (map cand_key ?ws)" using keys by (rule qualifyingItems_distinct)
  have nonneg: "\<forall>x \<in> set ?ws. 0 \<le> cand_quantity x" using qty by (rule qualifyingItems_nonneg)
  have total: "0 \<le> qualifying_quantity c off"
    unfolding qualifyingItems_quantity [symmetric]
    using nonneg by (intro sum_list_map_nonneg) simp
  have sorted: "sorted (map unitPrice ?ws)"
    by (simp add: qualifyingItems_def)
  have stable: "filter (\<lambda>x. unitPrice x = p) ?ws
           = filter (\<lambda>x. unitPrice x = p)
               (map candidate (filter (countsTowardsOffer off) (items c)))" for p
    unfolding qualifyingItems_def by (rule sort_key_stable)
  have greedy: "?M (cand_key (?ws ! i))
          = (if N - sum_list (map cand_quantity (take i ?ws)) \<le> 0 then None
             else Some (min (cand_quantity (?ws ! i))
                        (N - sum_list (map cand_quantity (take i ?ws)))))"
    if i: "i < length ?ws" for i
  proof (cases "N \<le> 0")
    case True
    with N have "N = 0" by simp
    moreover have "0 \<le> sum_list (map cand_quantity (take i ?ws))"
      using nonneg by (intro sum_list_map_nonneg) (auto dest: in_set_takeD)
    ultimately show ?thesis by (simp add: calculateCheapestFreeItems_def)
  next
    case False
    then show ?thesis
      using allocate_nth [OF dist nonneg i, of N Map.empty]
      by (simp add: calculateCheapestFreeItems_def)
  qed
  have sum: "(\<Sum>k \<in> dom ?M. the (?M k)) = min N (qualifying_quantity c off)"
  proof (cases "N \<le> 0")
    case True
    with N total show ?thesis by (simp add: calculateCheapestFreeItems_def)
  next
    case False
    have "(\<Sum>k \<in> dom (allocate ?ws N Map.empty). the (allocate ?ws N Map.empty k))
          = (\<Sum>k \<in> dom (Map.empty :: string \<rightharpoonup> int). the (Map.empty k))
            + min N (sum_list (map cand_quantity ?ws))"
      using dist nonneg N by (intro allocate_sum) simp_all
    with False show ?thesis
      by (simp add: calculateCheapestFreeItems_def qualifyingItems_quantity)
  qed
  have bound: "0 \<le> f \<and> f \<le> quantity it"
    if it: "it \<in> set (filter (countsTowardsOffer off) (items c))" and f: "?M (key it) = Some f"
    for it f
  proof -
    have "candidate it \<in> set ?ws" using it by (simp add: qualifyingItems_set)
    then obtain i where i: "i < length ?ws" and at: "?ws ! i = candidate it"
      by (auto simp: in_set_conv_nth)
    have q: "0 \<le> quantity it" using qty it by blast
    from greedy [OF i] f at q show ?thesis
      by (auto simp: candidate_def split: if_splits)
  qed
  have dom: "dom ?M \<subseteq> key ` set (filter (countsTowardsOffer off) (items c))"
  proof -
    have "dom ?M \<subseteq> cand_key ` set ?ws"
      using allocate_dom [of ?ws N Map.empty]
      by (auto simp: calculateCheapestFreeItems_def split: if_splits)
    also have "\<dots> = key ` set (filter (countsTowardsOffer off) (items c))"
      by (simp add: qualifyingItems_set image_image candidate_def)
    finally show ?thesis .
  qed
  from sorted stable greedy sum bound dom show ?thesis by blast
qed

theorem cheapest_allocation_witness:
  "calculateCheapestFreeItems abc_cart (bxgy_offer 3 3 ''cheapest_in_cart'' ''all'') 3 ''B'' = Some 2
   \<and> calculateCheapestFreeItems abc_cart (bxgy_offer 3 3 ''cheapest_in_cart'' ''all'') 3 ''A'' = Some 1
   \<and> calculateCheapestFreeItems abc_cart (bxgy_offer 3 3 ''cheapest_in_cart'' ''all'') 3 ''C'' = None
   \<and> (\<Sum>k \<in> dom (calculateCheapestFreeItems abc_cart (bxgy_offer 3 3 ''cheapest_in_cart'' ''all'') 3).
         the (calculateCheapestFreeItems abc_cart (bxgy_offer 3 3 ''cheapest_in_cart'' ''all'') 3 k)) = 3"
proof -
  let ?off = "bxgy_offer 3 3 ''cheapest_in_cart'' ''all''"
  have lines: "filter (countsTowardsOffer ?off) (items abc_cart) = items abc_cart"
    by (simp add: countsTowardsOffer_def example_defs itemQualifiesForBxgy_def tagged_def)
  have keys: "distinct (map key (filter (countsTowardsOffer ?off) (items abc_cart)))"
    unfolding lines by (simp add: example_defs)
  have qty: "\<forall>it \<in> set (filter (countsTowardsOffer ?off) (items abc_cart)). 0 \<le> quantity it"
    unfolding lines by (simp add: example_defs)
  have walk: "qualifyingItems abc_cart ?off =
      [candidate (paid_line ''B'' 2 2 200), candidate (paid_line ''A'' 1 3 500),
       candidate (paid_line ''C'' 3 1 800)]"
    unfolding qualifyingItems_def lines
    by (simp add: example_defs candidate_def)
  have alloc: "calculateCheapestFreeItems abc_cart ?off 3 = [''B'' \<mapsto> 2, ''A'' \<mapsto> 1]"
    unfolding calculateCheapestFreeItems_def walk
    by (simp add: candidate_def paid_line_def)
  have "(3::int) \<ge> 0" by simp
  from cheapest_allocation [OF this keys qty]
  have "(\<Sum>k \<in> dom (calculateCheapestFreeItems abc_cart ?off 3).
           the (calculateCheapestFreeItems abc_cart ?off 3 k)) = min 3 (qualifying_quantity abc_cart ?off)"
    by blast
  then show ?thesis
    by (simp add: qq_abc alloc)
qed

subsection \<open>Cycle-based entitlement\<close>

lemma applyBxgyRewards_lastBxgyState:
  assumes "\<not> isApplyingBxgy st"
  shows "lastBxgyState (fst (applyBxgyRewards net True (off # others) c now later st)) =
           (calculateBxgyQualifyingQuantity c off div or_number (buyQuantity off) 3,
            calculateBxgyQualifyingQuantity c off div or_number (buyQuantity off) 3
              * or_number (getQuantity off) 1)"
  using assms
  by (simp add: applyBxgyRewards_def Let_def split: prod.splits)
lemma count_abc: "countBxgyFreeItemsInCart abc_cart = 0"
  by (simp add: countBxgyFreeItemsInCart_def example_defs tagged_def)

lemma count_three: "countBxgyFreeItemsInCart three_units = 0"
  by (simp add: countBxgyFreeItemsInCart_def example_defs tagged_def)

text \<open>
  C4. In \<^verbatim>\<open>selection\<close> or \<^verbatim>\<open>automatic\<close> mode with B \<ge> 1 and G \<ge> 1 the entitlement
  is floor(Q / B) * G, in the progress pass and in the pass that applies the
  rewards (which records the cycles and the entitlement); with exactly Q = B
  qualifying units the first cycle of G free items is granted.
\<close>

theorem cycle_entitlement:
  assumes "rewardMode off = ''selection'' \<or> rewardMode off = ''automatic''"
    and "1 \<le> buyQuantity off" and "1 \<le> getQuantity off"
  shows "snd (updateBxgyProgress True (off # others) c) =
           Some (off, qualifying_quantity c off,
                 (qualifying_quantity c off div buyQuantity off) * getQuantity off,
                 countBxgyFreeItemsInCart c)
         \<and> (\<not> isApplyingBxgy st \<longrightarrow>
              lastBxgyState (fst (applyBxgyRewards net True (off # others) c now later st)) =
                (qualifying_quantity c off div buyQuantity off,
                 (qualifying_quantity c off div buyQuantity off) * getQuantity off))
         \<and> (qualifying_quantity c off = buyQuantity off \<longrightarrow>
              snd (updateBxgyProgress True (off # others) c) =
                Some (off, buyQuantity off, getQuantity off, countBxgyFreeItemsInCart c))"
proof -
  have b: "or_number (buyQuantity off) 3 = buyQuantity off"
    and g: "or_number (getQuantity off) 1 = getQuantity off"
    using assms(2,3) by (simp_all add: or_number_def)
  have mode: "or_string (rewardMode off) ''cheapest_in_cart'' \<noteq> ''cheapest_in_cart''"
    using assms(1) by (auto simp: or_string_def)
  have progress: "snd (updateBxgyProgress True (off # others) c) =
           Some (off, qualifying_quantity c off,
                 (qualifying_quantity c off div buyQuantity off) * getQuantity off,
                 countBxgyFreeItemsInCart c)"
    using mode by (simp add: updateBxgyProgress_def Let_def b g calculateBxgyQualifyingQuantity_eq)
  have rewards: "lastBxgyState (fst (applyBxgyRewards net True (off # others) c now later st)) =
                (qualifying_quantity c off div buyQuantity off,
                 (qualifying_quantity c off div buyQuantity off) * getQuantity off)"
    if "\<not> isApplyingBxgy st"
    using applyBxgyRewards_lastBxgyState [OF that]
    by (simp add: b g calculateBxgyQualifyingQuantity_eq)
  have first: "snd (updateBxgyProgress True (off # others) c) =
                Some (off, buyQuantity off, getQuantity off, countBxgyFreeItemsInCart c)"
    if "qualifying_quantity c off = buyQuantity off"
    using progress that assms(2) by simp
  from progress rewards first show ?thesis by blast
qed

theorem cycle_entitlement_witness:
  "snd (updateBxgyProgress True [bxgy_offer 3 1 ''selection'' ''all''] abc_cart)
     = Some (bxgy_offer 3 1 ''selection'' ''all'', 6, 2, 0)
   \<and> lastBxgyState (fst (applyBxgyRewards (\<lambda>r. Resolved True []) True
        [bxgy_offer 3 1 ''selection'' ''all''] abc_cart 5000 5001 idle)) = (2, 2)
   \<and> snd (updateBxgyProgress True [bxgy_offer 3 1 ''automatic'' ''all''] three_units)
     = Some (bxgy_offer 3 1 ''automatic'' ''all'', 3, 1, 0)"
proof -
  let ?sel = "bxgy_offer 3 1 ''selection'' ''all''"
  let ?aut = "bxgy_offer 3 1 ''automatic'' ''all''"
  have sel: "rewardMode ?sel = ''selection'' \<or> rewardMode ?sel = ''automatic''"
    and aut: "rewardMode ?aut = ''selection'' \<or> rewardMode ?aut = ''automatic''"
    by (simp_all add: bxgy_offer_def)
  have b: "1 \<le> buyQuantity ?sel" "1 \<le> buyQuantity ?aut"
    and g: "1 \<le> getQuantity ?sel" "1 \<le> getQuantity ?aut"
    by (simp_all add: bxgy_offer_def)
  have vals: "buyQuantity ?sel = 3" "getQuantity ?sel = 1" "buyQuantity ?aut = 3"
    "getQuantity ?aut = 1" "\<not> isApplyingBxgy idle"
    by (simp_all add: bxgy_offer_def idle_def)
  show ?thesis
    using cycle_entitlement [OF sel b(1) g(1), of "[]" abc_cart idle "\<lambda>r. Resolved True []" 5000 5001]
      cycle_entitlement [OF aut b(2) g(2), of "[]" three_units idle "\<lambda>r. Resolved True []" 0 0]
    by (simp add: vals qq_abc qq_three count_abc count_three)
qed

subsection \<open>Which lines an offer applies to\<close>

text \<open>
  C10. For an offer with \<^verbatim>\<open>appliesToType = 'collection'\<close> the qualification test is
  true for every cart line, so the offer counts the same quantity as one that
  applies to all products; for an offer on \<^verbatim>\<open>'products'\<close> whose product-id list
  does not parse the test is false for every line.
\<close>

theorem collection_offer_applies_to_every_item:
  "(appliesToType off = ''collection'' \<longrightarrow>
      itemQualifiesForBxgy it off
      \<and> qualifying_quantity c off = qualifying_quantity c (off\<lparr>appliesToType := ''all''\<rparr>))
   \<and> (appliesToType off = ''products'' \<and> productIds off = Malformed \<longrightarrow>
        \<not> itemQualifiesForBxgy it off \<and> qualifying_quantity c off = 0)"
  by (simp add: itemQualifiesForBxgy_def qualifying_quantity_def)

theorem collection_offer_applies_to_every_item_witness:
  "itemQualifiesForBxgy (paid_line ''A'' 1 3 500) (bxgy_offer 3 1 ''selection'' ''collection'')
   \<and> qualifying_quantity abc_cart (bxgy_offer 3 1 ''selection'' ''collection'') = 6
   \<and> \<not> itemQualifiesForBxgy (paid_line ''A'' 1 3 500)
        ((bxgy_offer 3 1 ''selection'' ''products'')\<lparr>productIds := Malformed\<rparr>)"
proof -
  let ?col = "bxgy_offer 3 1 ''selection'' ''collection''"
  let ?bad = "(bxgy_offer 3 1 ''selection'' ''products'')\<lparr>productIds := Malformed\<rparr>"
  have col: "appliesToType ?col = ''collection''"
    and bad: "appliesToType ?bad = ''products'' \<and> productIds ?bad = Malformed"
    by (simp_all add: bxgy_offer_def)
  have all: "?col\<lparr>appliesToType := ''all''\<rparr> = bxgy_offer 3 1 ''selection'' ''all''"
    by (simp add: bxgy_offer_def)
  show ?thesis
    using collection_offer_applies_to_every_item [of ?col "paid_line ''A'' 1 3 500" abc_cart]
      collection_offer_applies_to_every_item [of ?bad "paid_line ''A'' 1 3 500" abc_cart]
      col bad
    by (simp add: all qq_abc)
qed

subsection \<open>Removing free lines\<close>

lemma currentFreeItems_sum:
  "currentFreeItems c = sum_list (map quantity (filter (tagged ''_popcart_bxgy_free'') (items c)))"
proof -
  have "foldl (\<lambda>sum it. sum + quantity it) acc xs = acc + sum_list (map quantity xs)"
    for acc :: int and xs :: "item list"
    by (induction xs arbitrary: acc) simp_all
  then show ?thesis by (simp add: currentFreeItems_def)
qed

lemma remove_free_units_closed_form:
  "remove_free_units net its r =
     map Fetch (takeWhile (\<lambda>q. net q \<noteq> Rejected) (planned_changes its r))
     @ (case dropWhile (\<lambda>q. net q \<noteq> Rejected) (planned_changes its r) of
          [] \<Rightarrow> []
        | q # _ \<Rightarrow> [Fetch q, ConsoleError ''PopCart: Error removing BXGY free items:''])"
  by (induction its arbitrary: r) (simp_all add: Let_def split: response.splits)

lemma planned_changes_nonpositive: "n \<le> 0 \<Longrightarrow> planned_changes its n = []"
  by (cases its) simp_all
lemma free_two: "filter (tagged ''_popcart_bxgy_free'') (items two_free_lines)
   = [free_line ''F1'' 8 1 300, free_line ''F2'' 9 1 400]"
  by (simp add: two_free_lines_def paid_line_def free_line_def tagged_def)





lemma selection_dispatch:
  assumes "rewardMode off = ''selection''" and "\<not> isApplyingBxgy st"
    and "1 \<le> buyQuantity off" and "1 \<le> getQuantity off"
    and "E = (qualifying_quantity c off div buyQuantity off) * getQuantity off"
    and "F = currentFreeItems c"
  shows "applyBxgyRewards net True (off # others) c now later st =
    (if E = 0 \<and> 0 < F then
       (st\<lparr>lastBxgyActionTime := now,
           lastBxgyState := (qualifying_quantity c off div buyQuantity off, E)\<rparr>,
        removeBxgyFreeItems net c F @ [HidePicker])
     else if E < F then
       (if now - lastBxgyActionTime st < 2000 then
          (st\<lparr>lastBxgyState := (qualifying_quantity c off div buyQuantity off, E)\<rparr>, [])
        else
          (st\<lparr>lastBxgyActionTime := now,
              lastBxgyState := (qualifying_quantity c off div buyQuantity off, E)\<rparr>,
           removeBxgyFreeItems net c (F - E)))
     else if 0 < E then
       (st\<lparr>remainingFreeSlots := fst (showSelectionPicker E c),
           lastBxgyState := (qualifying_quantity c off div buyQuantity off, E)\<rparr>,
        snd (showSelectionPicker E c))
     else
       (st\<lparr>lastBxgyState := (qualifying_quantity c off div buyQuantity off, E)\<rparr>,
        [HidePicker]))"
proof -
  have b: "or_number (buyQuantity off) 3 = buyQuantity off"
    and g: "or_number (getQuantity off) 1 = getQuantity off"
    using assms(3,4) by (simp_all add: or_number_def)
  have mode: "or_string (rewardMode off) ''cheapest_in_cart'' = ''selection''"
    using assms(1) by (simp add: or_string_def)
  show ?thesis
    using assms(2)
    unfolding assms(5,6)
    by (simp add: applyBxgyRewards_def mode b g calculateBxgyQualifyingQuantity_eq Let_def
        split: prod.splits)
qed


lemma qq_two_free: "qualifying_quantity two_free_lines (bxgy_offer b g m ''all'') = 3"
  by (simp add: qualifying_quantity_def two_free_lines_def paid_line_def free_line_def
      itemQualifiesForBxgy_def tagged_def bxgy_offer_def)

lemma current_two_free: "currentFreeItems two_free_lines = 2"
  by (simp add: currentFreeItems_sum free_two free_line_def)


text \<open>
  C8 as stated fails: with two free lines to remove, a rejected request for the
  first line is logged and ends the batch, and no request is made for the second
  line, which a network that rejects nothing shows is part of the batch.
\<close>

theorem removal_aborts_batch:
  "removeBxgyFreeItems (rejecting (CartChange ''F1'' 0)) two_free_lines 2
     = [Fetch (CartChange ''F1'' 0), ConsoleError ''PopCart: Error removing BXGY free items:'']
   \<and> removeBxgyFreeItems online two_free_lines 2
     = [Fetch (CartChange ''F1'' 0), Fetch (CartChange ''F2'' 0)]"
  by (simp add: removeBxgyFreeItems_def free_two free_line_def rejecting_def online_def)

text \<open>
  C8, amended. The removal makes its requests line by line as long as none is
  rejected; a response with an error status is not inspected and does not stop
  it. The first rejected request is logged, and no request follows it.
\<close>

theorem removal_stops_at_first_rejection:
  "removeBxgyFreeItems net c n =
     map Fetch (takeWhile (\<lambda>q. net q \<noteq> Rejected)
        (planned_changes (filter (tagged ''_popcart_bxgy_free'') (items c)) n))
     @ (case dropWhile (\<lambda>q. net q \<noteq> Rejected)
               (planned_changes (filter (tagged ''_popcart_bxgy_free'') (items c)) n) of
          [] \<Rightarrow> []
        | q # _ \<Rightarrow> [Fetch q, ConsoleError ''PopCart: Error removing BXGY free items:''])"
  by (simp add: removeBxgyFreeItems_def remove_free_units_closed_form planned_changes_nonpositive)


theorem removal_stops_at_first_rejection_witness:
  "removeBxgyFreeItems (rejecting (CartChange ''F1'' 0)) two_free_lines 2
     = [Fetch (CartChange ''F1'' 0), ConsoleError ''PopCart: Error removing BXGY free items:'']"
  using removal_stops_at_first_rejection [of "rejecting (CartChange ''F1'' 0)" two_free_lines 2]
  by (simp add: free_two free_line_def rejecting_def)

text \<open>
  C9 as stated fails: a selection offer that stands second in the list is not
  evaluated. Alone it would remove the two free lines of this cart; behind a
  cheapest-in-cart offer the pass only hides the picker.
\<close>

theorem second_offer_ignored:
  "snd (applyBxgyRewards online True
          [bxgy_offer 3 3 ''cheapest_in_cart'' ''all'', bxgy_offer 5 1 ''selection'' ''all'']
          two_free_lines 5000 5001 idle) = [HidePicker]
   \<and> snd (applyBxgyRewards online True [bxgy_offer 5 1 ''selection'' ''all'']
          two_free_lines 5000 5001 idle)
     = [Fetch (CartChange ''F1'' 0), Fetch (CartChange ''F2'' 0), HidePicker]"
proof -
  have one: "snd (applyBxgyRewards online True
          [bxgy_offer 3 3 ''cheapest_in_cart'' ''all'', bxgy_offer 5 1 ''selection'' ''all'']
          two_free_lines 5000 5001 idle) = [HidePicker]"
    by (simp add: applyBxgyRewards_def idle_def bxgy_offer_def or_string_def Let_def)
  have two: "snd (applyBxgyRewards online True [bxgy_offer 5 1 ''selection'' ''all'']
          two_free_lines 5000 5001 idle)
     = [Fetch (CartChange ''F1'' 0), Fetch (CartChange ''F2'' 0), HidePicker]"
    using selection_dispatch [of "bxgy_offer 5 1 ''selection'' ''all''" idle 0 two_free_lines 2
        online "[]" 5000 5001]
    by (simp add: idle_def bxgy_offer_def qq_two_free [unfolded bxgy_offer_def] current_two_free
        removeBxgyFreeItems_def free_two free_line_def online_def)
  from one two show ?thesis by simp
qed

text \<open>
  C9, amended. A pass evaluates the first offer of the configured list only: the
  progress pass and the pass that applies the rewards do for a list of offers
  what they do for its first offer alone.
\<close>

theorem only_first_offer_evaluated:
  "applyBxgyRewards net bxgyEnabled (off # others) c now later st
     = applyBxgyRewards net bxgyEnabled [off] c now later st
   \<and> updateBxgyProgress bxgyEnabled (off # others) c = updateBxgyProgress bxgyEnabled [off] c"
  by (simp add: applyBxgyRewards_def updateBxgyProgress_def)

subsection \<open>The best discount\<close>

lemma better_Some:
  "better parseFloat (Some b) t = Some b \<or> better parseFloat (Some b) t = Some t"
  by (simp add: better_def)

lemma preferred_discount_step:
  assumes best: "preferred_discount parseFloat S b"
    and disc: "\<forall>x \<in> insert t S. rewardType x = discount_percent \<or> rewardType x = discount_fixed"
    and num: "\<forall>x \<in> insert t S. parseFloat (rewardValue x) \<noteq> None"
  shows "\<exists>b'. better parseFloat (Some b) t = Some b'
            \<and> preferred_discount parseFloat (insert t S) b'"
proof -
  obtain x y where x: "parseFloat (rewardValue t) = Some x"
    and y: "parseFloat (rewardValue b) = Some y"
    using num best by (auto simp: preferred_discount_def)
  have tb: "rewardType t = discount_percent \<or> rewardType t = discount_fixed"
    "rewardType b = discount_percent \<or> rewardType b = discount_fixed"
    using disc best by (auto simp: preferred_discount_def)
  show ?thesis
  proof (cases "rewardType t = rewardType b")
    case True
    show ?thesis
    proof (cases "y < x")
      case True
      with \<open>rewardType t = rewardType b\<close> tb have "better parseFloat (Some b) t = Some t"
        by (auto simp: better_def greater_def x y)
      moreover have "preferred_discount parseFloat (insert t S) t"
        using best True \<open>rewardType t = rewardType b\<close> x y
        by (fastforce simp: preferred_discount_def)
      ultimately show ?thesis by simp
    next
      case False
      with \<open>rewardType t = rewardType b\<close> tb have "better parseFloat (Some b) t = Some b"
        by (auto simp: better_def greater_def x y)
      moreover have "preferred_discount parseFloat (insert t S) b"
        using best False \<open>rewardType t = rewardType b\<close> x y
        by (auto simp: preferred_discount_def)
      ultimately show ?thesis by simp
    qed
  next
    case False
    show ?thesis
    proof (cases "rewardType t = discount_percent")
      case True
      with False tb have fixed: "rewardType b = discount_fixed" by auto
      have "better parseFloat (Some b) t = Some t"
        using True fixed by (simp add: better_def)
      moreover have "preferred_discount parseFloat (insert t S) t"
        using best True fixed by (auto simp: preferred_discount_def)
      ultimately show ?thesis by simp
    next
      case notp: False
      with False tb have types: "rewardType t = discount_fixed" "rewardType b = discount_percent"
        by auto
      have "better parseFloat (Some b) t = Some b"
        using types by (simp add: better_def)
      moreover have "preferred_discount parseFloat (insert t S) b"
        using best types by (auto simp: preferred_discount_def)
      ultimately show ?thesis by simp
    qed
  qed
qed

lemma foldl_better:
  assumes "preferred_discount parseFloat S b"
    and "\<forall>x \<in> S \<union> set ts. rewardType x = discount_percent \<or> rewardType x = discount_fixed"
    and "\<forall>x \<in> S \<union> set ts. parseFloat (rewardValue x) \<noteq> None"
  shows "\<exists>b'. foldl (better parseFloat) (Some b) ts = Some b'
            \<and> preferred_discount parseFloat (S \<union> set ts) b'"
  using assms
proof (induction ts arbitrary: S b)
  case Nil
  then show ?case by simp
next
  case (Cons t ts)
  obtain b1 where b1: "better parseFloat (Some b) t = Some b1"
    and best1: "preferred_discount parseFloat (insert t S) b1"
    using preferred_discount_step [OF Cons.prems(1), of t] Cons.prems(2,3) by auto
  have "\<exists>b'. foldl (better parseFloat) (Some b1) ts = Some b'
            \<and> preferred_discount parseFloat (insert t S \<union> set ts) b'"
    using best1 Cons.prems(2,3) by (intro Cons.IH) auto
  then show ?case by (simp add: b1)
qed

lemma preferred_discount_single:
  "preferred_discount parseFloat {t} t"
  by (simp add: preferred_discount_def)

lemma bestDiscount_preferred:
  assumes "discountTiers unlocked \<noteq> []"
    and "\<forall>t \<in> set (discountTiers unlocked). parseFloat (rewardValue t) \<noteq> None"
  shows "\<exists>b. bestDiscount parseFloat unlocked = Some b
           \<and> preferred_discount parseFloat (set (discountTiers unlocked)) b"
proof -
  obtain t ts where ds: "discountTiers unlocked = t # ts"
    using assms(1) by (cases "discountTiers unlocked") auto
  have types: "\<forall>x \<in> set (discountTiers unlocked).
      rewardType x = discount_percent \<or> rewardType x = discount_fixed"
    by (simp add: discountTiers_def)
  have "\<exists>b'. foldl (better parseFloat) (Some t) ts = Some b'
            \<and> preferred_discount parseFloat ({t} \<union> set ts) b'"
    using types assms(2) unfolding ds
    by (intro foldl_better preferred_discount_single) auto
  then show ?thesis
    by (simp add: bestDiscount_def ds better_def)
qed

lemma preferred_discount_unique:
  assumes "preferred_discount parseFloat S b" and "preferred_discount parseFloat S b'"
    and "\<forall>x \<in> S. rewardType x = discount_percent \<or> rewardType x = discount_fixed"
    and "\<forall>x \<in> S. parseFloat (rewardValue x) \<noteq> None"
  shows "rewardType b' = rewardType b \<and> parseFloat (rewardValue b') = parseFloat (rewardValue b)"
proof -
  have mem: "b \<in> S" "b' \<in> S" using assms(1,2) by (auto simp: preferred_discount_def)
  have ty: "rewardType b' = rewardType b"
    using assms(1,2,3) mem unfolding preferred_discount_def by metis
  obtain x y where x: "parseFloat (rewardValue b) = Some x"
    and y: "parseFloat (rewardValue b') = Some y"
    using assms(4) mem by blast
  have "x \<le> y" "y \<le> x"
    using assms(1,2) mem ty x y unfolding preferred_discount_def by fastforce+
  with ty x y show ?thesis by simp
qed

lemma discountTiers_set:
  "set unlocked' = set unlocked \<Longrightarrow> set (discountTiers unlocked') = set (discountTiers unlocked)"
  by (auto simp: discountTiers_def)

lemma foldl_better_type:
  assumes "b \<in> S"
    and "\<forall>t \<in> S. rewardType t = discount_percent \<longrightarrow> rewardType b = discount_percent"
    and "\<forall>x \<in> S \<union> set ts. rewardType x = discount_percent \<or> rewardType x = discount_fixed"
  shows "\<exists>b'. foldl (better parseFloat) (Some b) ts = Some b' \<and> b' \<in> S \<union> set ts
           \<and> (\<forall>t \<in> S \<union> set ts. rewardType t = discount_percent
                 \<longrightarrow> rewardType b' = discount_percent)"
  using assms
proof (induction ts arbitrary: S b)
  case Nil
  then show ?case by simp
next
  case (Cons t ts)
  have tb: "rewardType t = discount_percent \<or> rewardType t = discount_fixed"
    "rewardType b = discount_percent \<or> rewardType b = discount_fixed"
    using Cons.prems(1,3) by auto
  obtain b1 where b1: "better parseFloat (Some b) t = Some b1" and mem: "b1 \<in> insert t S"
    and pct: "\<forall>x \<in> insert t S. rewardType x = discount_percent
                \<longrightarrow> rewardType b1 = discount_percent"
  proof (cases "better parseFloat (Some b) t = Some t")
    case True
    moreover have "\<forall>x \<in> insert t S. rewardType x = discount_percent
                \<longrightarrow> rewardType t = discount_percent"
      using True tb Cons.prems(2) by (auto simp: better_def split: if_splits)
    ultimately show ?thesis using that by simp
  next
    case False
    then have keep: "better parseFloat (Some b) t = Some b"
      using better_Some [of parseFloat b t] by simp
    moreover have "\<forall>x \<in> insert t S. rewardType x = discount_percent
                \<longrightarrow> rewardType b = discount_percent"
      using keep False tb Cons.prems(2) by (auto simp: better_def split: if_splits)
    ultimately show ?thesis using that Cons.prems(1) by simp
  qed
  have "\<exists>b'. foldl (better parseFloat) (Some b1) ts = Some b' \<and> b' \<in> insert t S \<union> set ts
           \<and> (\<forall>x \<in> insert t S \<union> set ts. rewardType x = discount_percent
                 \<longrightarrow> rewardType b' = discount_percent)"
    using mem pct Cons.prems(3) by (intro Cons.IH) auto
  then show ?case by (simp add: b1)
qed

lemma bestDiscount_percent_first:
  assumes "discountTiers unlocked \<noteq> []"
  shows "\<exists>b. bestDiscount parseFloat unlocked = Some b \<and> b \<in> set (discountTiers unlocked)
           \<and> ((\<exists>t \<in> set (discountTiers unlocked). rewardType t = discount_percent)
                 \<longrightarrow> rewardType b = discount_percent)"
proof -
  obtain t ts where ds: "discountTiers unlocked = t # ts"
    using assms(1) by (cases "discountTiers unlocked") auto
  have types: "\<forall>x \<in> set (discountTiers unlocked).
      rewardType x = discount_percent \<or> rewardType x = discount_fixed"
    by (simp add: discountTiers_def)
  have "\<exists>b'. foldl (better parseFloat) (Some t) ts = Some b' \<and> b' \<in> {t} \<union> set ts
           \<and> (\<forall>x \<in> {t} \<union> set ts. rewardType x = discount_percent
                 \<longrightarrow> rewardType b' = discount_percent)"
    using types unfolding ds by (intro foldl_better_type) auto
  then show ?thesis
    by (auto simp: bestDiscount_def ds better_def)
qed

text \<open>
  C5. When at least one discount tier is unlocked, the best discount written to
  the cart attributes is one of the unlocked discount tiers, and it is a
  percentage tier whenever a percentage tier is unlocked, whatever the values
  are. When the values of the unlocked discount tiers are numbers, no unlocked
  tier of its reward type has a larger value, and every list of the same unlocked
  tiers, in whatever order, yields a best discount of the same type and value.
\<close>

theorem best_discount_prefers_percent_then_value:
  assumes some: "discountTiers unlocked \<noteq> []"
  shows "\<exists>b. bestDiscount parseFloat unlocked = Some b
           \<and> b \<in> set (discountTiers unlocked)
           \<and> ((\<exists>t \<in> set (discountTiers unlocked). rewardType t = discount_percent)
                 \<longrightarrow> rewardType b = discount_percent)
           \<and> map_of (attributes parseFloat unlocked) ''_popcart_discount_type''
               = Some (Some (reward_type_name (rewardType b)))
           \<and> map_of (attributes parseFloat unlocked) ''_popcart_discount_value''
               = Some (rewardValue b)
           \<and> ((\<forall>t \<in> set (discountTiers unlocked). parseFloat (rewardValue t) \<noteq> None) \<longrightarrow>
                 preferred_discount parseFloat (set (discountTiers unlocked)) b
                 \<and> (\<forall>unlocked'. set unlocked' = set unlocked \<longrightarrow>
                       (\<exists>b'. bestDiscount parseFloat unlocked' = Some b'
                          \<and> rewardType b' = rewardType b
                          \<and> parseFloat (rewardValue b') = parseFloat (rewardValue b))))"
proof -
  obtain b where b: "bestDiscount parseFloat unlocked = Some b"
    and mem: "b \<in> set (discountTiers unlocked)"
    and pct: "(\<exists>t \<in> set (discountTiers unlocked). rewardType t = discount_percent)
                 \<longrightarrow> rewardType b = discount_percent"
    using bestDiscount_percent_first [OF some] by blast
  have attrs: "map_of (attributes parseFloat unlocked) ''_popcart_discount_type''
               = Some (Some (reward_type_name (rewardType b)))"
    "map_of (attributes parseFloat unlocked) ''_popcart_discount_value'' = Some (rewardValue b)"
    by (simp_all add: attributes_def b)
  have types: "\<forall>x \<in> set (discountTiers unlocked).
      rewardType x = discount_percent \<or> rewardType x = discount_fixed"
    by (simp add: discountTiers_def)
  have numeric: "preferred_discount parseFloat (set (discountTiers unlocked)) b
                 \<and> (\<forall>unlocked'. set unlocked' = set unlocked \<longrightarrow>
                       (\<exists>b'. bestDiscount parseFloat unlocked' = Some b'
                          \<and> rewardType b' = rewardType b
                          \<and> parseFloat (rewardValue b') = parseFloat (rewardValue b)))"
    if num: "\<forall>t \<in> set (discountTiers unlocked). parseFloat (rewardValue t) \<noteq> None"
  proof -
    have best: "preferred_discount parseFloat (set (discountTiers unlocked)) b"
      using bestDiscount_preferred [OF some num] b by simp
    have "\<exists>b'. bestDiscount parseFloat unlocked' = Some b'
                    \<and> rewardType b' = rewardType b
                    \<and> parseFloat (rewardValue b') = parseFloat (rewardValue b)"
      if same: "set unlocked' = set unlocked" for unlocked'
    proof -
      have eq: "set (discountTiers unlocked') = set (discountTiers unlocked)"
        using same by (rule discountTiers_set)
      have "discountTiers unlocked' \<noteq> []" using some eq by auto
      moreover have "\<forall>t \<in> set (discountTiers unlocked'). parseFloat (rewardValue t) \<noteq> None"
        using num eq by simp
      ultimately obtain b' where b': "bestDiscount parseFloat unlocked' = Some b'"
        and best': "preferred_discount parseFloat (set (discountTiers unlocked')) b'"
        using bestDiscount_preferred by blast
      from preferred_discount_unique [OF best best' [unfolded eq] types num] b'
      show ?thesis by simp
    qed
    with best show ?thesis by blast
  qed
  from b mem pct attrs numeric show ?thesis by blast
qed

lemma discount_tiers_example:
  "discountTiers [reward_tier 1000 discount_fixed ''500'', reward_tier 2000 free_shipping ''0'',
                  reward_tier 3000 discount_percent ''10'', reward_tier 4000 discount_percent ''5'']
   = [reward_tier 1000 discount_fixed ''500'', reward_tier 3000 discount_percent ''10'',
      reward_tier 4000 discount_percent ''5'']"
  by (simp add: discountTiers_def reward_tier_def)

theorem best_discount_prefers_percent_then_value_witness:
  "bestDiscount read_number
     [reward_tier 1000 discount_fixed ''500'', reward_tier 2000 free_shipping ''0'',
      reward_tier 3000 discount_percent ''10'', reward_tier 4000 discount_percent ''5'']
     = Some (reward_tier 3000 discount_percent ''10'')
   \<and> preferred_discount read_number
        {reward_tier 1000 discount_fixed ''500'', reward_tier 3000 discount_percent ''10'',
         reward_tier 4000 discount_percent ''5''}
        (reward_tier 3000 discount_percent ''10'')"
proof -
  let ?unlocked = "[reward_tier 1000 discount_fixed ''500'', reward_tier 2000 free_shipping ''0'',
      reward_tier 3000 discount_percent ''10'', reward_tier 4000 discount_percent ''5'']"
  have some: "discountTiers ?unlocked \<noteq> []"
    unfolding discount_tiers_example by simp
  have num: "\<forall>t \<in> set (discountTiers ?unlocked). read_number (rewardValue t) \<noteq> None"
    unfolding discount_tiers_example by (simp add: reward_tier_def read_number_def)
  have best: "bestDiscount read_number ?unlocked = Some (reward_tier 3000 discount_percent ''10'')"
    unfolding bestDiscount_def discount_tiers_example
    by (simp add: better_def greater_def reward_tier_def read_number_def)
  from best_discount_prefers_percent_then_value [OF some, of read_number] num best
  show ?thesis
    unfolding discount_tiers_example by auto
qed

subsection \<open>The reward-tier pass\<close>

text \<open>
  A pass with bound \<open>n\<close> on the snapshot \<open>c\<close> is
  \<open>applyRewards (refreshCart n p) p n c\<close>. The bound only decides whether the
  model gets to the end of what the code does: a pass that returns with one
  bound returns the same with every larger one.
\<close>

declare addFreeGiftToCart.simps [simp del]
declare removeFreeGiftFromCart.simps [simp del]
declare applyRewards.simps [simp del]
declare updateCartUI.simps [simp del]
declare refresh_pass.simps [simp del]
declare applyBxgyRewards_at.simps [simp del]

lemma and_then_Some:
  "and_then first next = Some (s2, evs2)
   \<longleftrightarrow> (\<exists>s1 evs1 evs'. first = Some (s1, evs1) \<and> next s1 = Some (s2, evs')
                      \<and> evs2 = evs1 @ evs')"
  by (auto simp: and_then_def split: option.splits)







declare remove_locked.simps [simp del]

lemma remove_locked_end:
  "length (appliedRewards e) \<le> i
   \<Longrightarrow> remove_locked refresh p tiers keys steps i (w, e) = Some ((w, e), [])"
  by (simp add: remove_locked.simps)

lemma remove_locked_0:
  "i < length (appliedRewards e) \<Longrightarrow> remove_locked refresh p tiers keys 0 i (w, e) = None"
  by (simp add: remove_locked.simps)

lemma remove_locked_Suc:
  "i < length (appliedRewards e) \<Longrightarrow>
   remove_locked refresh p tiers keys (Suc steps) i (w, e) =
     (case appliedRewards e ! i of
        None \<Rightarrow> remove_locked refresh p tiers keys steps (Suc i) (w, e)
      | Some appliedKey \<Rightarrow>
          if appliedKey \<in> set keys
          then remove_locked refresh p tiers keys steps (Suc i) (w, e)
          else
            and_then
              (case find_tier tiers appliedKey of
                 Some t \<Rightarrow> removeReward refresh p t (w, e)
               | None \<Rightarrow> Some ((w, e), []))
              (\<lambda>(w1, e1).
                 remove_locked refresh p tiers keys steps (Suc i)
                   (w1, e1\<lparr>appliedRewards := Set_delete (appliedRewards e1) appliedKey\<rparr>)))"
  by (simp add: remove_locked.simps)



lemma Set_has_add: "Set_has (Set_add entries k') k \<longleftrightarrow> Set_has entries k \<or> k = k'"
  by (auto simp: Set_has_def Set_add_def)

lemma Set_has_delete: "Set_has (Set_delete entries k') k \<longleftrightarrow> Set_has entries k \<and> k \<noteq> k'"
  by (auto simp: Set_has_def Set_delete_def)


text \<open>What a function of the pass does when it returns without a refresh.\<close>

lemma addFreeGiftToCart_no_refresh:
  assumes "addFreeGiftToCart (\<lambda>s. None) p t (w, e) = Some ((w', e'), evs)"
  shows "e' = e \<and> Refresh \<notin> set evs"
  using assms
  by (auto simp: addFreeGiftToCart.simps Let_def and_then_def
      split: prod.splits response.splits list.splits option.splits if_splits)

lemma removeFreeGiftFromCart_no_refresh:
  assumes "removeFreeGiftFromCart (\<lambda>s. None) p t (w, e) = Some ((w', e'), evs)"
  shows "e' = e \<and> Refresh \<notin> set evs"
  using assms
  by (auto simp: removeFreeGiftFromCart.simps Let_def and_then_def
      split: prod.splits response.splits option.splits if_splits)

lemma applyReward_no_refresh:
  assumes "applyReward (\<lambda>s. None) p t (w, e) = Some ((w', e'), evs)"
  shows "e' = e \<and> Refresh \<notin> set evs"
  using assms
  by (auto simp: applyReward_def split: reward_type.splits dest: addFreeGiftToCart_no_refresh)

lemma removeReward_no_refresh:
  assumes "removeReward (\<lambda>s. None) p t (w, e) = Some ((w', e'), evs)"
  shows "e' = e \<and> Refresh \<notin> set evs"
  using assms
  by (auto simp: removeReward_def split: if_splits dest: removeFreeGiftFromCart_no_refresh)

lemma apply_unlocked_no_refresh:
  assumes "apply_unlocked (\<lambda>s. None) p ts (w, e) = Some ((w', e'), evs)"
  shows "\<exists>entries. e' = e\<lparr>appliedRewards := entries\<rparr>
           \<and> (\<forall>k. Set_has entries k \<longleftrightarrow> Set_has (appliedRewards e) k \<or> k \<in> rewardKey ` set ts)
           \<and> Refresh \<notin> set evs"
  using assms
proof (induction ts arbitrary: w e evs)
  case Nil
  then show ?case by (auto intro: exI [of _ "appliedRewards e"])
next
  case (Cons t ts)
  show ?case
  proof (cases "Set_has (appliedRewards e) (rewardKey t)")
    case True
    with Cons.prems have "apply_unlocked (\<lambda>s. None) p ts (w, e) = Some ((w', e'), evs)" by simp
    from Cons.IH [OF this] obtain entries where
      same: "e' = e\<lparr>appliedRewards := entries\<rparr>"
      and has: "\<forall>k. Set_has entries k \<longleftrightarrow>
                  Set_has (appliedRewards e) k \<or> k \<in> rewardKey ` set ts"
      and quiet: "Refresh \<notin> set evs"
      by blast
    have "\<forall>k. Set_has entries k \<longleftrightarrow>
            Set_has (appliedRewards e) k \<or> k \<in> rewardKey ` set (t # ts)"
      using has True by auto
    with same quiet show ?thesis by blast
  next
    case False
    from Cons.prems False obtain s1 evs1 evs2 where
      one: "applyReward (\<lambda>s. None) p t (w, e) = Some (s1, evs1)"
      and rest: "(\<lambda>(w1, e1). apply_unlocked (\<lambda>s. None) p ts
               (w1, e1\<lparr>appliedRewards := Set_add (appliedRewards e1) (rewardKey t)\<rparr>)) s1
             = Some ((w', e'), evs2)"
      and evs: "evs = evs1 @ evs2"
      by (auto simp: and_then_Some)
    obtain w1 e1 where s1: "s1 = (w1, e1)" by (cases s1)
    have e1: "e1 = e" and quiet1: "Refresh \<notin> set evs1"
      using applyReward_no_refresh [OF one [unfolded s1]] by simp_all
    have "apply_unlocked (\<lambda>s. None) p ts
               (w1, e\<lparr>appliedRewards := Set_add (appliedRewards e) (rewardKey t)\<rparr>)
             = Some ((w', e'), evs2)"
      using rest unfolding s1 e1 by simp
    from Cons.IH [OF this] obtain entries where
      "e' = e\<lparr>appliedRewards := entries\<rparr>"
      "\<forall>k. Set_has entries k \<longleftrightarrow>
            Set_has (Set_add (appliedRewards e) (rewardKey t)) k \<or> k \<in> rewardKey ` set ts"
      "Refresh \<notin> set evs2"
      by auto
    then have "e' = e\<lparr>appliedRewards := entries\<rparr>"
      and "\<forall>k. Set_has entries k \<longleftrightarrow>
             Set_has (appliedRewards e) k \<or> k \<in> rewardKey ` set (t # ts)"
      and "Refresh \<notin> set evs"
      using quiet1 evs by (auto simp: Set_has_add)
    then show ?thesis by blast
  qed
qed

lemma remove_locked_no_refresh:
  assumes "remove_locked (\<lambda>s. None) p tiers keys steps i (w, e) = Some ((w', e'), evs)"
  shows "\<exists>entries. e' = e\<lparr>appliedRewards := entries\<rparr>
           \<and> (\<forall>k \<in> set keys. Set_has (appliedRewards e) k \<longrightarrow> Set_has entries k)
           \<and> Refresh \<notin> set evs"
  using assms
proof (induction steps arbitrary: i w e evs)
  case 0
  then show ?case
    by (cases "length (appliedRewards e) \<le> i")
      (auto simp: remove_locked_end remove_locked_0 intro: exI [of _ "appliedRewards e"])
next
  case (Suc steps)
  show ?case
  proof (cases "length (appliedRewards e) \<le> i")
    case True
    with Suc.prems show ?thesis
      by (auto simp: remove_locked_end intro: exI [of _ "appliedRewards e"])
  next
    case False
    then have i: "i < length (appliedRewards e)" by simp
    show ?thesis
    proof (cases "appliedRewards e ! i")
      case None
      with Suc.prems i have "remove_locked (\<lambda>s. None) p tiers keys steps (Suc i) (w, e)
          = Some ((w', e'), evs)"
        by (simp add: remove_locked_Suc)
      from Suc.IH [OF this] show ?thesis .
    next
      case (Some appliedKey)
      show ?thesis
      proof (cases "appliedKey \<in> set keys")
        case True
        with Suc.prems i Some have "remove_locked (\<lambda>s. None) p tiers keys steps (Suc i) (w, e)
            = Some ((w', e'), evs)"
          by (simp add: remove_locked_Suc)
        from Suc.IH [OF this] show ?thesis .
      next
        case False
        from Suc.prems i Some False obtain s1 evs1 evs2 where
          one: "(case find_tier tiers appliedKey of
                   Some t \<Rightarrow> removeReward (\<lambda>s. None) p t (w, e)
                 | None \<Rightarrow> Some ((w, e), [])) = Some (s1, evs1)"
          and rest: "(\<lambda>(w1, e1). remove_locked (\<lambda>s. None) p tiers keys steps (Suc i)
                   (w1, e1\<lparr>appliedRewards := Set_delete (appliedRewards e1) appliedKey\<rparr>)) s1
                 = Some ((w', e'), evs2)"
          and evs: "evs = evs1 @ evs2"
          by (auto simp: remove_locked_Suc and_then_Some)
        obtain w1 e1 where s1: "s1 = (w1, e1)" by (cases s1)
        have e1: "e1 = e" and quiet1: "Refresh \<notin> set evs1"
          using one unfolding s1
          by (auto split: option.splits dest: removeReward_no_refresh)
        have "remove_locked (\<lambda>s. None) p tiers keys steps (Suc i)
                   (w1, e\<lparr>appliedRewards := Set_delete (appliedRewards e) appliedKey\<rparr>)
                 = Some ((w', e'), evs2)"
          using rest unfolding s1 e1 by simp
        from Suc.IH [OF this] obtain entries where
          "e' = e\<lparr>appliedRewards := entries\<rparr>"
          "\<forall>k \<in> set keys. Set_has (Set_delete (appliedRewards e) appliedKey) k
                 \<longrightarrow> Set_has entries k"
          "Refresh \<notin> set evs2"
          by auto
        then have "e' = e\<lparr>appliedRewards := entries\<rparr>"
          and "\<forall>k \<in> set keys. Set_has (appliedRewards e) k \<longrightarrow> Set_has entries k"
          and "Refresh \<notin> set evs"
          using quiet1 evs False by (auto simp: Set_has_delete)
        then show ?thesis by blast
      qed
    qed
  qed
qed

lemma updateCartAttributes_no_refresh:
  "Refresh \<notin> set (updateCartAttributes parseFloat net unlocked)"
  by (simp add: updateCartAttributes_def Let_def split: response.splits)

lemma applyRewards_no_refresh:
  assumes "applyRewards (\<lambda>s. None) p fuel c (w, e) = Some ((w', e'), evs)"
  shows "(\<forall>t \<in> set (rewardTiers e). threshold t \<le> total_price c
             \<longrightarrow> Set_has (appliedRewards e') (rewardKey t))
         \<and> this_cart e' = this_cart e \<and> Refresh \<notin> set evs"
proof (cases "rewardTiers e = []")
  case True
  with assms show ?thesis by (simp add: applyRewards.simps)
next
  case False
  let ?tiers = "sort_key threshold (rewardTiers e)"
  let ?unlocked = "filter (\<lambda>t. threshold t \<le> total_price c) ?tiers"
  let ?tail = "\<lambda>(w2, e2).
                  let hasFreeShipping = (\<exists>t \<in> set ?unlocked. rewardType t = free_shipping);
                      stateChanged =
                        (length ?unlocked \<noteq> fst (lastRewardsState e2)
                         \<or> hasFreeShipping \<noteq> snd (lastRewardsState e2))
                  in
                    if stateChanged then
                      Some ((fst (page_fetch p w2
                                    (CartUpdate (attributes (page_parseFloat p) ?unlocked))),
                             e2\<lparr>lastRewardsState := (length ?unlocked, hasFreeShipping)\<rparr>),
                            updateCartAttributes (page_parseFloat p)
                              (\<lambda>r. snd (page_fetch p w2 r)) ?unlocked)
                    else Some ((w2, e2), [])"
  have run: "applyRewards (\<lambda>s. None) p fuel c (w, e) =
      and_then (apply_unlocked (\<lambda>s. None) p ?unlocked (w, e\<lparr>rewardTiers := ?tiers\<rparr>))
        (\<lambda>(w1, e1). and_then
            (remove_locked (\<lambda>s. None) p ?tiers (map rewardKey ?unlocked)
               (fuel + length (appliedRewards e1)) 0 (w1, e1)) ?tail)"
    by (simp only: applyRewards.simps Let_def False if_False)
  from assms obtain w1 e1 evs1 w2 e2 evs2 evs3 where
    one: "apply_unlocked (\<lambda>s. None) p ?unlocked (w, e\<lparr>rewardTiers := ?tiers\<rparr>)
            = Some ((w1, e1), evs1)"
    and two: "remove_locked (\<lambda>s. None) p ?tiers (map rewardKey ?unlocked)
               (fuel + length (appliedRewards e1)) 0 (w1, e1) = Some ((w2, e2), evs2)"
    and three: "?tail (w2, e2) = Some ((w', e'), evs3)"
    and evs: "evs = evs1 @ evs2 @ evs3"
    unfolding run by (auto simp: and_then_Some)
  from apply_unlocked_no_refresh [OF one] obtain entries1 where
    e1: "e1 = e\<lparr>rewardTiers := ?tiers, appliedRewards := entries1\<rparr>"
    and has1: "\<forall>k. Set_has entries1 k \<longleftrightarrow>
                 Set_has (appliedRewards e) k \<or> k \<in> rewardKey ` set ?unlocked"
    and quiet1: "Refresh \<notin> set evs1"
    by auto
  from remove_locked_no_refresh [OF two] obtain entries2 where
    e2: "e2 = e1\<lparr>appliedRewards := entries2\<rparr>"
    and has2: "\<forall>k \<in> set (map rewardKey ?unlocked). Set_has (appliedRewards e1) k
                 \<longrightarrow> Set_has entries2 k"
    and quiet2: "Refresh \<notin> set evs2"
    by auto
  have applied': "appliedRewards e' = entries2" and cart': "this_cart e' = this_cart e"
    and quiet3: "Refresh \<notin> set evs3"
    using three unfolding e2 e1
    by (auto simp: Let_def updateCartAttributes_no_refresh split: if_splits)
  have "Set_has entries2 (rewardKey t)"
    if "t \<in> set (rewardTiers e)" "threshold t \<le> total_price c" for t
  proof -
    have mem: "rewardKey t \<in> set (map rewardKey ?unlocked)" using that by simp
    then have "rewardKey t \<in> rewardKey ` set ?unlocked" by simp
    with has1 have "Set_has entries1 (rewardKey t)" by blast
    then have "Set_has (appliedRewards e1) (rewardKey t)" unfolding e1 by simp
    with has2 mem show ?thesis by blast
  qed
  then show ?thesis
    using applied' cart' quiet1 quiet2 quiet3 evs by simp
qed







subsection \<open>The Buy-X-Get-Y pass inside a refresh\<close>

text \<open>
  On a page whose answers do not depend on the state of the shop, the
  Buy-X-Get-Y pass against the shop does what the pass against a network does.
\<close>

lemma remove_free_units_at_network:
  assumes "\<And>w r. fetch w r = (w, net r)"
  shows "remove_free_units_at fetch its remaining w = (w, remove_free_units net its remaining)"
  by (induction its arbitrary: remaining)
    (simp_all add: assms Let_def split: response.splits)

lemma removeBxgyFreeItems_at_network:
  assumes "\<And>w r. fetch w r = (w, net r)"
  shows "removeBxgyFreeItems_at fetch c n w = (w, removeBxgyFreeItems net c n)"
  by (simp add: removeBxgyFreeItems_at_def removeBxgyFreeItems_def
      remove_free_units_at_network [OF assms])

lemma addAutomaticBxgyItem_at_network:
  assumes "\<And>w r. fetch w r = (w, net r)"
  shows "addAutomaticBxgyItem_at fetch off productHandle n w
         = (w, addAutomaticBxgyItem net off productHandle n)"
  by (simp add: addAutomaticBxgyItem_at_def addAutomaticBxgyItem_def assms Let_def
      split: response.splits list.splits)

lemma applyAutomaticBxgyReward_at_network:
  assumes "\<And>w r. page_fetch p w r = (w, net r)" and "\<And>w. page_date_now p w = (w, later)"
  shows "applyAutomaticBxgyReward_at p off c earnedFreeItems lastAction w
         = (w, applyAutomaticBxgyReward net off c earnedFreeItems later lastAction)"
  by (simp add: applyAutomaticBxgyReward_at_def applyAutomaticBxgyReward_def assms(2)
      addAutomaticBxgyItem_at_network [OF assms(1)] removeBxgyFreeItems_at_network [OF assms(1)])

lemma applyBxgyRewards_at_network:
  assumes "\<And>w r. page_fetch p w r = (w, net r)" and "\<And>w. page_date_now p w = (w, now)"
  shows "applyBxgyRewards_at p c (w, st)
         = (let (st', evs) = applyBxgyRewards net (page_bxgyEnabled p) (page_bxgyOffers p)
                               c now now st
            in ((w, st'), evs))"
  by (simp add: applyBxgyRewards_at.simps applyBxgyRewards_def assms(2) Let_def
      applyAutomaticBxgyReward_at_network [OF assms] removeBxgyFreeItems_at_network [OF assms(1)]
      split: list.splits prod.splits)

subsection \<open>Two passes on one snapshot\<close>

text \<open>
  When no refresh has run inside a pass, the pass has left every unlocked key
  applied, no other key applied and the reward state equal to what it computes,
  so a second pass on the same snapshot makes no request and changes nothing.
\<close>

lemma apply_unlocked_applied:
  assumes "\<forall>t \<in> set ts. Set_has (appliedRewards e) (rewardKey t)"
  shows "apply_unlocked refresh p ts (w, e) = Some ((w, e), [])"
  using assms by (induction ts) simp_all

lemma remove_locked_unlocked:
  assumes "\<forall>k. Set_has (appliedRewards e) k \<longrightarrow> k \<in> set keys"
  shows "length (appliedRewards e) \<le> i + steps
         \<Longrightarrow> remove_locked refresh p tiers keys steps i (w, e) = Some ((w, e), [])"
proof (induction steps arbitrary: i)
  case 0
  then show ?case by (simp add: remove_locked_end)
next
  case (Suc steps)
  show ?case
  proof (cases "length (appliedRewards e) \<le> i")
    case True
    then show ?thesis by (simp add: remove_locked_end)
  next
    case False
    then have i: "i < length (appliedRewards e)" by simp
    from Suc.prems have enough: "length (appliedRewards e) \<le> Suc i + steps" by simp
    have "k \<in> set keys" if "appliedRewards e ! i = Some k" for k
      using assms i that by (metis Set_has_def nth_mem)
    with Suc.IH [OF enough] i show ?thesis
      by (simp add: remove_locked_Suc split: option.splits)
  qed
qed

lemma remove_locked_leaves_unlocked:
  assumes "remove_locked (\<lambda>s. None) p tiers keys steps i (w, e) = Some ((w', e'), evs)"
  shows "\<forall>k. Set_has (appliedRewards e') k
           \<longrightarrow> k \<in> set keys \<or> Some k \<in> set (take i (appliedRewards e))"
  using assms
proof (induction steps arbitrary: i w e evs)
  case 0
  then have "length (appliedRewards e) \<le> i" and "e' = e"
    by (cases "length (appliedRewards e) \<le> i"; simp add: remove_locked_end remove_locked_0)+
  then show ?case by (simp add: Set_has_def)
next
  case (Suc steps)
  show ?case
  proof (cases "length (appliedRewards e) \<le> i")
    case True
    with Suc.prems have "e' = e" by (simp add: remove_locked_end)
    with True show ?thesis by (simp add: Set_has_def)
  next
    case False
    then have i: "i < length (appliedRewards e)" by simp
    then have step: "take (Suc i) (appliedRewards e)
                     = take i (appliedRewards e) @ [appliedRewards e ! i]"
      by (simp add: take_Suc_conv_app_nth)
    show ?thesis
    proof (cases "appliedRewards e ! i")
      case None
      with Suc.prems i have "remove_locked (\<lambda>s. None) p tiers keys steps (Suc i) (w, e)
          = Some ((w', e'), evs)"
        by (simp add: remove_locked_Suc)
      from Suc.IH [OF this] show ?thesis by (auto simp: step None)
    next
      case (Some appliedKey)
      show ?thesis
      proof (cases "appliedKey \<in> set keys")
        case True
        with Suc.prems i Some have "remove_locked (\<lambda>s. None) p tiers keys steps (Suc i) (w, e)
            = Some ((w', e'), evs)"
          by (simp add: remove_locked_Suc)
        from Suc.IH [OF this] True show ?thesis by (auto simp: step Some)
      next
        case False
        from Suc.prems i Some False obtain s1 evs1 evs2 where
          one: "(case find_tier tiers appliedKey of
                   Some t \<Rightarrow> removeReward (\<lambda>s. None) p t (w, e)
                 | None \<Rightarrow> Some ((w, e), [])) = Some (s1, evs1)"
          and rest: "(\<lambda>(w1, e1). remove_locked (\<lambda>s. None) p tiers keys steps (Suc i)
                   (w1, e1\<lparr>appliedRewards := Set_delete (appliedRewards e1) appliedKey\<rparr>)) s1
                 = Some ((w', e'), evs2)"
          by (auto simp: remove_locked_Suc and_then_Some)
        obtain w1 e1 where s1: "s1 = (w1, e1)" by (cases s1)
        have e1: "e1 = e"
          using one unfolding s1
          by (auto split: option.splits dest: removeReward_no_refresh)
        let ?e = "e\<lparr>appliedRewards := Set_delete (appliedRewards e) appliedKey\<rparr>"
        have "remove_locked (\<lambda>s. None) p tiers keys steps (Suc i) (w1, ?e)
                 = Some ((w', e'), evs2)"
          using rest unfolding s1 e1 by simp
        from Suc.IH [OF this] have
          "\<forall>k. Set_has (appliedRewards e') k
             \<longrightarrow> k \<in> set keys \<or> Some k \<in> set (take (Suc i) (appliedRewards ?e))" .
        moreover have "Some k \<in> set (take i (appliedRewards e))"
          if "Some k \<in> set (take (Suc i) (appliedRewards ?e))" for k
        proof -
          have "take (Suc i) (appliedRewards ?e)
                = map (\<lambda>x. if x = Some appliedKey then None else x)
                    (take i (appliedRewards e) @ [Some appliedKey])"
            by (simp add: Set_delete_def take_map step Some)
          with that show ?thesis by (auto split: if_splits)
        qed
        ultimately show ?thesis by blast
      qed
    qed
  qed
qed


lemma sort_key_twice: "sort_key f (sort_key f xs) = sort_key f xs"
  by (rule sort_key_id_if_sorted) simp

lemma settled_pass:
  assumes "rewardTiers e \<noteq> []"
    and "sort_key threshold (rewardTiers e) = rewardTiers e"
    and "\<forall>t \<in> set (rewardTiers e). threshold t \<le> total_price c
           \<longrightarrow> Set_has (appliedRewards e) (rewardKey t)"
    and "\<forall>k. Set_has (appliedRewards e) k
           \<longrightarrow> k \<in> rewardKey ` {t \<in> set (rewardTiers e). threshold t \<le> total_price c}"
    and "lastRewardsState e
         = (length (filter (\<lambda>t. threshold t \<le> total_price c) (rewardTiers e)),
            \<exists>t \<in> set (rewardTiers e). threshold t \<le> total_price c
                                        \<and> rewardType t = free_shipping)"
  shows "applyRewards refresh p fuel c (w, e) = Some ((w, e), [])"
proof -
  let ?unlocked = "filter (\<lambda>t. threshold t \<le> total_price c) (rewardTiers e)"
  let ?tail = "\<lambda>(w2, e2).
                  let hasFreeShipping = (\<exists>t \<in> set ?unlocked. rewardType t = free_shipping);
                      stateChanged =
                        (length ?unlocked \<noteq> fst (lastRewardsState e2)
                         \<or> hasFreeShipping \<noteq> snd (lastRewardsState e2))
                  in
                    if stateChanged then
                      Some ((fst (page_fetch p w2
                                    (CartUpdate (attributes (page_parseFloat p) ?unlocked))),
                             e2\<lparr>lastRewardsState := (length ?unlocked, hasFreeShipping)\<rparr>),
                            updateCartAttributes (page_parseFloat p)
                              (\<lambda>r. snd (page_fetch p w2 r)) ?unlocked)
                    else Some ((w2, e2), [])"
  have same: "e\<lparr>rewardTiers := rewardTiers e\<rparr> = e" by simp
  have run: "applyRewards refresh p fuel c (w, e) =
      and_then (apply_unlocked refresh p ?unlocked (w, e))
        (\<lambda>(w1, e1). and_then
            (remove_locked refresh p (rewardTiers e) (map rewardKey ?unlocked)
               (fuel + length (appliedRewards e1)) 0 (w1, e1)) ?tail)"
    by (simp only: applyRewards.simps Let_def assms(1,2) if_False same)
  have one: "apply_unlocked refresh p ?unlocked (w, e) = Some ((w, e), [])"
    by (rule apply_unlocked_applied) (use assms(3) in simp)
  have two: "remove_locked refresh p (rewardTiers e) (map rewardKey ?unlocked)
               (fuel + length (appliedRewards e)) 0 (w, e) = Some ((w, e), [])"
    by (rule remove_locked_unlocked) (use assms(4) in auto)
  have unchanged: "\<not> (length ?unlocked \<noteq> fst (lastRewardsState e)
                      \<or> (\<exists>t \<in> set ?unlocked. rewardType t = free_shipping)
                          \<noteq> snd (lastRewardsState e))"
    unfolding assms(5) by auto
  have three: "?tail (w, e) = Some ((w, e), [])"
    by (simp only: prod.case Let_def unchanged if_False)
  show ?thesis
    unfolding run using one two three by (simp add: and_then_def)
qed

lemma applyRewards_no_refresh_state:
  assumes "applyRewards (\<lambda>s. None) p fuel c (w, e) = Some ((w', e'), evs)"
    and "rewardTiers e \<noteq> []"
  shows "rewardTiers e' = sort_key threshold (rewardTiers e)
         \<and> (\<forall>k. Set_has (appliedRewards e') k
                \<longrightarrow> k \<in> rewardKey ` {t \<in> set (rewardTiers e). threshold t \<le> total_price c})
         \<and> lastRewardsState e'
             = (length (filter (\<lambda>t. threshold t \<le> total_price c)
                          (sort_key threshold (rewardTiers e))),
                \<exists>t \<in> set (rewardTiers e). threshold t \<le> total_price c
                                            \<and> rewardType t = free_shipping)"
proof -
  let ?tiers = "sort_key threshold (rewardTiers e)"
  let ?unlocked = "filter (\<lambda>t. threshold t \<le> total_price c) ?tiers"
  let ?tail = "\<lambda>(w2, e2).
                  let hasFreeShipping = (\<exists>t \<in> set ?unlocked. rewardType t = free_shipping);
                      stateChanged =
                        (length ?unlocked \<noteq> fst (lastRewardsState e2)
                         \<or> hasFreeShipping \<noteq> snd (lastRewardsState e2))
                  in
                    if stateChanged then
                      Some ((fst (page_fetch p w2
                                    (CartUpdate (attributes (page_parseFloat p) ?unlocked))),
                             e2\<lparr>lastRewardsState := (length ?unlocked, hasFreeShipping)\<rparr>),
                            updateCartAttributes (page_parseFloat p)
                              (\<lambda>r. snd (page_fetch p w2 r)) ?unlocked)
                    else Some ((w2, e2), [])"
  have run: "applyRewards (\<lambda>s. None) p fuel c (w, e) =
      and_then (apply_unlocked (\<lambda>s. None) p ?unlocked (w, e\<lparr>rewardTiers := ?tiers\<rparr>))
        (\<lambda>(w1, e1). and_then
            (remove_locked (\<lambda>s. None) p ?tiers (map rewardKey ?unlocked)
               (fuel + length (appliedRewards e1)) 0 (w1, e1)) ?tail)"
    by (simp only: applyRewards.simps Let_def assms(2) if_False)
  from assms(1) obtain w1 e1 evs1 w2 e2 evs2 evs3 where
    one: "apply_unlocked (\<lambda>s. None) p ?unlocked (w, e\<lparr>rewardTiers := ?tiers\<rparr>)
            = Some ((w1, e1), evs1)"
    and two: "remove_locked (\<lambda>s. None) p ?tiers (map rewardKey ?unlocked)
               (fuel + length (appliedRewards e1)) 0 (w1, e1) = Some ((w2, e2), evs2)"
    and three: "?tail (w2, e2) = Some ((w', e'), evs3)"
    unfolding run by (auto simp: and_then_Some)
  from apply_unlocked_no_refresh [OF one] obtain entries1 where
    e1: "e1 = e\<lparr>rewardTiers := ?tiers, appliedRewards := entries1\<rparr>"
    by auto
  from remove_locked_no_refresh [OF two] obtain entries2 where
    e2: "e2 = e1\<lparr>appliedRewards := entries2\<rparr>"
    by auto
  from remove_locked_leaves_unlocked [OF two]
  have only: "\<forall>k. Set_has entries2 k \<longrightarrow> k \<in> set (map rewardKey ?unlocked)"
    unfolding e2 by simp
  have tiers': "rewardTiers e' = ?tiers" and applied': "appliedRewards e' = entries2"
    and state': "lastRewardsState e'
                 = (length ?unlocked, \<exists>t \<in> set ?unlocked. rewardType t = free_shipping)"
    using three unfolding e2 e1
    by (auto simp: Let_def split: if_splits)
  have "(\<exists>t \<in> set ?unlocked. rewardType t = free_shipping)
        = (\<exists>t \<in> set (rewardTiers e). threshold t \<le> total_price c
                                        \<and> rewardType t = free_shipping)"
    by auto
  with tiers' applied' state' only show ?thesis by auto
qed

lemma pass_without_refresh_idempotent:
  assumes "applyRewards (\<lambda>s. None) p fuel c (w, e) = Some ((w', e'), evs)"
  shows "applyRewards refresh p fuel' c (w', e') = Some ((w', e'), [])"
proof (cases "rewardTiers e = []")
  case True
  with assms show ?thesis by (simp add: applyRewards.simps)
next
  case False
  let ?tiers = "sort_key threshold (rewardTiers e)"
  from applyRewards_no_refresh_state [OF assms False] have
    tiers': "rewardTiers e' = ?tiers"
    and only: "\<forall>k. Set_has (appliedRewards e') k
                \<longrightarrow> k \<in> rewardKey ` {t \<in> set (rewardTiers e). threshold t \<le> total_price c}"
    and state': "lastRewardsState e'
             = (length (filter (\<lambda>t. threshold t \<le> total_price c) ?tiers),
                \<exists>t \<in> set (rewardTiers e). threshold t \<le> total_price c
                                            \<and> rewardType t = free_shipping)"
    by blast+
  from applyRewards_no_refresh [OF assms] have
    all: "\<forall>t \<in> set (rewardTiers e). threshold t \<le> total_price c
             \<longrightarrow> Set_has (appliedRewards e') (rewardKey t)"
    by blast
  show ?thesis
  proof (rule settled_pass)
    show "rewardTiers e' \<noteq> []"
      unfolding tiers' using False by (metis length_sort list.size(3) length_0_conv)
    show "sort_key threshold (rewardTiers e') = rewardTiers e'"
      unfolding tiers' by (rule sort_key_twice)
    show "\<forall>t \<in> set (rewardTiers e'). threshold t \<le> total_price c
            \<longrightarrow> Set_has (appliedRewards e') (rewardKey t)"
      unfolding tiers' using all by simp
    show "\<forall>k. Set_has (appliedRewards e') k
            \<longrightarrow> k \<in> rewardKey ` {t \<in> set (rewardTiers e'). threshold t \<le> total_price c}"
      unfolding tiers' using only by simp
    show "lastRewardsState e'
          = (length (filter (\<lambda>t. threshold t \<le> total_price c) (rewardTiers e')),
             \<exists>t \<in> set (rewardTiers e'). threshold t \<le> total_price c
                                          \<and> rewardType t = free_shipping)"
      unfolding tiers' state' by simp
  qed
qed

lemma toString_int_1000: "toString_int 1000 = ''1000''"
  by (simp add: toString_int_def toString.simps digit_char_def)

lemma toString_int_2000: "toString_int 2000 = ''2000''"
  by (simp add: toString_int_def toString.simps digit_char_def)

lemma toString_0: "toString 0 = ''0''"
  by (simp add: toString.simps digit_char_def)

lemma toString_1: "toString (Suc 0) = ''1''"
  by (simp add: toString.simps digit_char_def)

lemmas pass_simps =
  applyRewards.simps refresh_pass.simps updateCartUI.simps applyBxgyRewards_at.simps
  addFreeGiftToCart.simps removeFreeGiftFromCart.simps applyReward_def removeReward_def
  reloadDrawerSection_def
  and_then_def remove_locked.simps find_tier_def rewardKey_def falsy_def tagged_def
  Set_has_def Set_add_def Set_delete_def updateCartAttributes_def attributes_def
  bestDiscount_def discountTiers_def updateBxgyProgress_def Let_def

lemmas scene_simps =
  scripted_def session_def gift_line_def paid_line_def cap_tier_def mug_tier_def
  reward_tier_def with_both_gifts_def with_mug_def without_gifts_def three_units_def
  online_def rejecting_def gift_shop_def idle_def mug_add_def
  toString_int_1000 toString_int_2000 toString_0 toString_1




subsection \<open>When a key is marked applied\<close>













text \<open>
  A request for the gift that is answered is followed by a refresh before the key
  is added, whatever the status of the answer. When the answer is an error and
  the cart comes back without the gift, the pass of the refresh finds the tier
  unlocked and its key not applied, and asks for the gift again: with no bound
  does the pass return.
\<close>

lemma answered_add_never_returns:
  "applyRewards (refreshCart n (steady three_units unavailable))
     (steady three_units unavailable) n three_units
     ((), session three_units [mug_tier] [] (0, False)) = None"
proof (induction n)
  case 0
  show ?case
    by (simp add: pass_simps scene_simps steady_def unavailable_def)
next
  case (Suc n)
  have "refreshCart (Suc n) (steady three_units unavailable)
          ((), session three_units [mug_tier] [] (0, False)) = None"
    using Suc
    by (simp add: refresh_pass.simps updateCartUI.simps and_then_def steady_def session_def
        updateBxgyProgress_def)
  then show ?case
    by (simp add: applyRewards.simps apply_unlocked.simps addFreeGiftToCart.simps applyReward_def
        and_then_def rewardKey_def falsy_def tagged_def Set_has_def Let_def
        scene_simps steady_def unavailable_def)
qed

end
